theory Spec2Isabelle
  imports Complex_Main "HOL-Library.Multiset"
begin

section \<open>Strings, characters and tokens\<close>

text \<open>
  The application (\<^verbatim>\<open>App\<close>, in \<^verbatim>\<open>src/unnamed/part_001\<close>) works on JavaScript strings.
  They are modelled as lists of 8-bit characters. \<^verbatim>\<open>toLowerCase\<close> maps the letters
  \<^verbatim>\<open>A\<close> to \<^verbatim>\<open>Z\<close> to \<^verbatim>\<open>a\<close> to \<^verbatim>\<open>z\<close> and leaves every other character as it is,
  as JavaScript does on ASCII text; characters beyond ASCII that JavaScript lowercases
  to an ASCII letter are outside the model. The regular-expression class \<^verbatim>\<open>[a-z0-9]\<close> is
  the predicate \<open>is_alnum\<close>.
  JavaScript numbers are IEEE doubles; a number is modelled by the real it denotes, and
  \<^verbatim>\<open>NaN\<close> and the infinities are outside the model. The addition of quantities in the
  grouped view rounds as the addition of doubles does (\<open>js_add\<close>); comparisons and
  \<^verbatim>\<open>Math.max\<close> are exact in the source as in the model.
\<close>

definition toLowerChar :: "char \<Rightarrow> char" where
  "toLowerChar c =
     (case map_of (zip ''ABCDEFGHIJKLMNOPQRSTUVWXYZ'' ''abcdefghijklmnopqrstuvwxyz'') c of
        Some l \<Rightarrow> l
      | None \<Rightarrow> c)"

definition toLowerCase :: "string \<Rightarrow> string" where
  "toLowerCase s = map toLowerChar s"

text \<open>The character class \<^verbatim>\<open>[a-z0-9]\<close>.\<close>

definition is_alnum :: "char \<Rightarrow> bool" where
  "is_alnum c = (c \<in> set ''abcdefghijklmnopqrstuvwxyz0123456789'')"

text \<open>
  \<^verbatim>\<open>s.split(re)\<close> for a regular expression \<^verbatim>\<open>re\<close> that matches exactly one character
  of a class \<open>sep\<close>: the pieces between separators, empty pieces included, so that a
  string with \<open>n\<close> separators gives \<open>n + 1\<close> pieces.
\<close>

fun js_split :: "(char \<Rightarrow> bool) \<Rightarrow> string \<Rightarrow> string list" where
  "js_split sep [] = [[]]"
| "js_split sep (c # cs) =
     (if sep c then [] # js_split sep cs
      else (case js_split sep cs of
              w # ws \<Rightarrow> (c # w) # ws
            | [] \<Rightarrow> [[c]]))"

text \<open>
  \<^verbatim>\<open>w.replace(/^[^a-z0-9]+|[^a-z0-9]+$/g, '')\<close>: the leading run and the trailing run of
  characters outside \<^verbatim>\<open>[a-z0-9]\<close> are removed; what lies between them stays.
\<close>

definition trim_non_alnum :: "string \<Rightarrow> string" where
  "trim_non_alnum w =
     rev (dropWhile (\<lambda>c. \<not> is_alnum c) (rev (dropWhile (\<lambda>c. \<not> is_alnum c) w)))"

text \<open>\<^verbatim>\<open>s.toLowerCase().replace(/[^a-z0-9]/g, '')\<close>, used by \<^verbatim>\<open>normalizeToken\<close> and by the
  exact-name fallback of \<^verbatim>\<open>processFile\<close>.\<close>

definition strip_alnum :: "string \<Rightarrow> string" where
  "strip_alnum s = filter is_alnum (toLowerCase s)"

text \<open>
  \<^verbatim>\<open>ABBREVIATIONS\<close> is a plain object literal, and \<^verbatim>\<open>normalizeToken\<close> reads it with
  \<^verbatim>\<open>ABBREVIATIONS[low]\<close>. A property read on a plain object also finds the properties
  inherited from \<^verbatim>\<open>Object.prototype\<close>. The key is always a string over \<^verbatim>\<open>[a-z0-9]\<close>, and
  the only inherited property with such a name is \<^verbatim>\<open>constructor\<close>, whose value is the
  function \<^verbatim>\<open>Object\<close>. So a value that flows through the token pipeline is either a string
  or that function.
\<close>

datatype token = Word string | ObjectConstructor

datatype js_error = TypeError | SyntaxError | NetworkError

definition ABBREVIATIONS :: "(string \<times> string) list" where
  "ABBREVIATIONS =
     [(''us'', ''ultrasound''),
      (''usg'', ''ultrasound''),
      (''ultrasonic'', ''ultrasound''),
      (''bx'', ''biopsy''),
      (''mammo'', ''mammogram''),
      (''mammography'', ''mammogram''),
      (''xr'', ''xray''),
      (''cr'', ''xray''),
      (''dr'', ''xray''),
      (''mr'', ''mri''),
      (''fu'', ''followup''),
      (''followup'', ''followup''),
      (''ltd'', ''limited''),
      (''scr'', ''screening''),
      (''scrn'', ''screening''),
      (''dx'', ''diagnostic''),
      (''diag'', ''diagnostic''),
      (''bil'', ''bilateral''),
      (''bilat'', ''bilateral''),
      (''unilat'', ''unilateral''),
      (''w'', ''with''),
      (''wo'', ''without''),
      (''cont'', ''contrast''),
      (''thor'', ''thoracic''),
      (''abd'', ''abdomen''),
      (''pelv'', ''pelvis''),
      (''ang'', ''angio''),
      (''cerv'', ''cervical''),
      (''lumb'', ''lumbar'')]"

text \<open>The property read \<^verbatim>\<open>ABBREVIATIONS[k]\<close>; \<open>None\<close> is \<^verbatim>\<open>undefined\<close>.\<close>

definition ABBREVIATIONS_get :: "string \<Rightarrow> token option" where
  "ABBREVIATIONS_get k =
     (case map_of ABBREVIATIONS k of
        Some v \<Rightarrow> Some (Word v)
      | None \<Rightarrow> if k = ''constructor'' then Some ObjectConstructor else None)"

text \<open>Truthiness of a looked-up value: the empty string is falsy, a function is truthy.\<close>

fun truthy :: "token \<Rightarrow> bool" where
  "truthy (Word s) = (s \<noteq> [])"
| "truthy ObjectConstructor = True"

text \<open>The \<^verbatim>\<open>length\<close> property: the number of characters of a string; \<^verbatim>\<open>Object.length\<close> is 1.\<close>

fun js_length :: "token \<Rightarrow> nat" where
  "js_length (Word s) = length s"
| "js_length ObjectConstructor = 1"

section \<open>Text normalization and matching\<close>

definition normalizeToken :: "string \<Rightarrow> token" where
  "normalizeToken t =
     (let low = filter is_alnum (toLowerCase t) in
      case ABBREVIATIONS_get low of
        Some v \<Rightarrow> if truthy v then v else Word low
      | None \<Rightarrow> Word low)"

text \<open>
  \<^verbatim>\<open>normalizeToken\<close> applied to a value that need not be a string, as happens when it is
  applied to its own result: \<^verbatim>\<open>t.toLowerCase\<close> is not a function on \<^verbatim>\<open>Object\<close>, and the
  call throws a \<^verbatim>\<open>TypeError\<close>.
\<close>

fun normalizeToken_value :: "token \<Rightarrow> js_error + token" where
  "normalizeToken_value (Word t) = Inr (normalizeToken t)"
| "normalizeToken_value ObjectConstructor = Inl TypeError"

definition lateralIgnoreSet :: "token set" where
  "lateralIgnoreSet = {Word ''lt'', Word ''rt'', Word ''left'', Word ''right''}"

definition fillerIgnoreSet :: "token set" where
  "fillerIgnoreSet =
     {Word ''the'', Word ''and'', Word ''for'', Word ''or'', Word ''of'', Word ''in''}"

definition getSignificantWords :: "string \<Rightarrow> token list" where
  "getSignificantWords s =
     filter (\<lambda>w. js_length w > 0 \<and> w \<notin> lateralIgnoreSet \<and> w \<notin> fillerIgnoreSet)
       (map (\<lambda>w. normalizeToken (trim_non_alnum w))
          (filter (\<lambda>w. length w > 0)
             (js_split (\<lambda>c. \<not> (is_alnum c \<or> c = CHR ''/'')) (toLowerCase s))))"

text \<open>
  \<^verbatim>\<open>words1\<close> is a \<^verbatim>\<open>Set\<close>, \<^verbatim>\<open>words2\<close> stays an array (duplicates kept); the \<^verbatim>\<open>forEach\<close>
  with its counter is a left fold.
\<close>

definition calculateWordOverlap :: "string \<Rightarrow> string \<Rightarrow> nat" where
  "calculateWordOverlap s1 s2 =
     (let words1 = set (getSignificantWords s1);
          words2 = getSignificantWords s2
      in foldl (\<lambda>matches w. if w \<in> words1 then matches + 1 else matches) 0 words2)"

section \<open>Data model\<close>

datatype Category = XRay | CT | MRI | Ultrasound | NuclearMedicine | Interventional | Other

text \<open>
  \<^verbatim>\<open>StudyDefinition\<close> and \<^verbatim>\<open>ScannedStudy\<close> share the field names \<^verbatim>\<open>cpt\<close>, \<^verbatim>\<open>name\<close> and
  \<^verbatim>\<open>rvu\<close>; the fields of the catalog entry carry the prefix \<open>def_\<close>, and the field \<^verbatim>\<open>id\<close>
  is \<open>study_id\<close>.
\<close>

record StudyDefinition =
  def_cpt :: string
  def_name :: string
  def_rvu :: real
  def_category :: Category

record ScannedStudy =
  study_id :: string
  cpt :: string
  name :: string
  rvu :: real
  quantity :: real
  confidence :: real
  originalText :: "string option"


text \<open>
  One element of the array that \<^verbatim>\<open>performOCRAndMatch\<close> returns (typed \<^verbatim>\<open>any\<close> in the
  source). \<^verbatim>\<open>processFile\<close> reads \<^verbatim>\<open>ex.name\<close> unguarded, so the name is a string; it guards
  \<^verbatim>\<open>originalText\<close>, \<^verbatim>\<open>quantity\<close> and \<^verbatim>\<open>confidence\<close> with \<^verbatim>\<open>||\<close> and \<^verbatim>\<open>??\<close>, so these may
  be missing (\<open>None\<close>).
\<close>

record Extracted =
  ex_cpt :: string
  ex_name :: string
  ex_quantity :: "real option"
  ex_originalText :: "string option"
  ex_confidence :: "real option"

section \<open>Matching an extracted item against the catalog\<close>

text \<open>
  The body of \<^verbatim>\<open>db.forEach\<close> in \<^verbatim>\<open>processFile\<close>; the pair is the state of the two
  variables \<^verbatim>\<open>bestMatch\<close> and \<^verbatim>\<open>highestOverlap\<close>.
\<close>

definition overlapStep ::
  "string \<Rightarrow> StudyDefinition option \<times> nat \<Rightarrow> StudyDefinition \<Rightarrow> StudyDefinition option \<times> nat"
where
  "overlapStep text st dbItem =
     (let sigWordsInDb = getSignificantWords (def_name dbItem);
          overlap = calculateWordOverlap text (def_name dbItem);
          threshold = min 4 (length sigWordsInDb)
      in if overlap \<ge> threshold \<and> overlap > snd st then (Some dbItem, overlap) else st)"

definition bestOverlapMatch :: "string \<Rightarrow> StudyDefinition list \<Rightarrow> StudyDefinition option" where
  "bestOverlapMatch text db = fst (foldl (overlapStep text) (None, 0) db)"

text \<open>\<^verbatim>\<open>ex.originalText || ex.name\<close>: a missing or empty original text gives the name.\<close>

definition extractedText :: "Extracted \<Rightarrow> string" where
  "extractedText ex =
     (case ex_originalText ex of
        Some t \<Rightarrow> if t \<noteq> [] then t else ex_name ex
      | None \<Rightarrow> ex_name ex)"

text \<open>The fallback \<^verbatim>\<open>db.find(...) || null\<close> on the stripped names.\<close>

definition exactNameMatch :: "Extracted \<Rightarrow> StudyDefinition list \<Rightarrow> StudyDefinition option" where
  "exactNameMatch ex db =
     find (\<lambda>s. strip_alnum (def_name s) = strip_alnum (ex_name ex)) db"

text \<open>
  The callback of \<^verbatim>\<open>extracted.map\<close>. The identifier is built from \<^verbatim>\<open>Date.now()\<close>, the index
  and \<^verbatim>\<open>Math.random()\<close>; the model takes it from a parameter \<open>newId\<close>. \<open>None\<close> is the
  \<^verbatim>\<open>null\<close> of an item that matched nothing.
\<close>

definition matchExtracted ::
  "StudyDefinition list \<Rightarrow> (nat \<Rightarrow> string) \<Rightarrow> Extracted \<Rightarrow> nat \<Rightarrow> ScannedStudy option"
where
  "matchExtracted db newId ex index =
     (let bestMatch =
            (case bestOverlapMatch (extractedText ex) db of
               Some d \<Rightarrow> Some d
             | None \<Rightarrow> exactNameMatch ex db)
      in case bestMatch of
           Some d \<Rightarrow>
             Some \<lparr>study_id = newId index,
                   cpt = def_cpt d,
                   name = def_name d,
                   rvu = def_rvu d,
                   quantity = (case ex_quantity ex of
                                 Some q \<Rightarrow> if q \<noteq> 0 then q else 1
                               | None \<Rightarrow> 1),
                   confidence = (case ex_confidence ex of Some c \<Rightarrow> c | None \<Rightarrow> 0),
                   originalText = ex_originalText ex\<rparr>
         | None \<Rightarrow> None)"

text \<open>\<^verbatim>\<open>extracted.map(...).filter(Boolean)\<close>.\<close>

definition processExtracted ::
  "StudyDefinition list \<Rightarrow> (nat \<Rightarrow> string) \<Rightarrow> Extracted list \<Rightarrow> ScannedStudy list"
where
  "processExtracted db newId extracted =
     map the
       (filter (\<lambda>r. r \<noteq> None)
          (map (\<lambda>(index, ex). matchExtracted db newId ex index) (enumerate 0 extracted)))"

text \<open>
  The part of the application state that \<^verbatim>\<open>processFile\<close> writes: the study list and the
  error message. The model is \<^verbatim>\<open>processFile\<close> for a file that passed the format checks
  (the conversion of the proprietary photo format and the rejection of a file that is no
  image come before, and the scanning flag and the kept image play no part here):
  \<^verbatim>\<open>setError(null)\<close> clears the message, the \<^verbatim>\<open>onloadend\<close> handler awaits the extraction
  call and appends the processed batch to the study list, and its \<^verbatim>\<open>catch\<close> sets the
  message when the call or the processing throws (\<open>Inl\<close>).
\<close>

record AppState =
  studies :: "ScannedStudy list"
  error :: "string option"

definition processFile ::
  "StudyDefinition list \<Rightarrow> (nat \<Rightarrow> string) \<Rightarrow> js_error + Extracted list \<Rightarrow> AppState \<Rightarrow> AppState"
where
  "processFile db newId extracted st =
     (let st0 = st\<lparr>error := None\<rparr> in
      case extracted of
        Inr exs \<Rightarrow> st0\<lparr>studies := studies st0 @ processExtracted db newId exs\<rparr>
      | Inl e \<Rightarrow> st0\<lparr>error := Some ''AI Analysis failed. Check image quality.''\<rparr>)"

section \<open>Addition of JavaScript numbers\<close>

text \<open>
  \<^verbatim>\<open>existing.quantity + s.quantity\<close> adds two IEEE 754 doubles: the result is the exact sum
  rounded to the nearest double, a tie going to the double with the even significand.
  A double has 53 significant bits, its exponent is at least \<open>-1022\<close> (below that the
  spacing stays \<open>2\<^sup>-\<^sup>1\<^sup>0\<^sup>7\<^sup>4\<close>). The numbers are the finite doubles; a sum whose rounding leaves
  the range of the finite doubles, \<^verbatim>\<open>Infinity\<close> in JavaScript, is outside the model.
  A decimal literal of the source that is no double, such as \<^verbatim>\<open>0.1\<close>, denotes the double
  nearest to it, \<open>round_double 0.1\<close>.
\<close>

definition round_half_even :: "real \<Rightarrow> int" where
  "round_half_even r =
     (let f = \<lfloor>r\<rfloor> in
      if r - of_int f < 1 / 2 then f
      else if r - of_int f > 1 / 2 then f + 1
      else if even f then f else f + 1)"

text \<open>For \<open>a \<ge> 1\<close>, the \<open>k\<close> with \<open>2\<^sup>k \<le> a < 2\<^sup>k\<^sup>+\<^sup>1\<close>, found by halving, at most \<open>n\<close> times.\<close>

fun halvings :: "nat \<Rightarrow> real \<Rightarrow> nat" where
  "halvings n a = (if n = 0 \<or> a < 2 then 0 else 1 + halvings (n - 1) (a / 2))"

text \<open>For \<open>0 < a < 1\<close>, the least \<open>k\<close> with \<open>1 \<le> 2\<^sup>k a\<close>, found by doubling, at most \<open>n\<close> times.\<close>

fun doublings :: "nat \<Rightarrow> real \<Rightarrow> nat" where
  "doublings n a = (if n = 0 \<or> 1 \<le> a then 0 else 1 + doublings (n - 1) (2 * a))"

text \<open>The binary exponent of a positive number, not below \<open>-1022\<close>.\<close>

definition binary_exponent :: "real \<Rightarrow> int" where
  "binary_exponent a = (if 1 \<le> a then int (halvings 1023 a) else - int (doublings 1022 a))"

definition pow2 :: "int \<Rightarrow> real" where
  "pow2 e = (if 0 \<le> e then 2 ^ nat e else 1 / 2 ^ nat (- e))"

text \<open>The double nearest to \<open>x\<close>: \<open>x\<close> is rounded to a multiple of the spacing of the doubles
  of its exponent.\<close>

definition round_double :: "real \<Rightarrow> real" where
  "round_double x =
     (if x = 0 then 0
      else (let u = pow2 (binary_exponent \<bar>x\<bar> - 52)
            in of_int (round_half_even (x / u)) * u))"

definition js_add :: "real \<Rightarrow> real \<Rightarrow> real" where
  "js_add x y = round_double (x + y)"

section \<open>Grouping, aggregate results and deletion\<close>

text \<open>The template string \<^verbatim>\<open>`${s.cpt}-${s.name}`\<close>.\<close>

definition groupKey :: "ScannedStudy \<Rightarrow> string" where
  "groupKey s = cpt s @ ''-'' @ name s"

text \<open>
  A JavaScript \<^verbatim>\<open>Map\<close> keeps its keys in the order of their first insertion:
  an association list, where \<^verbatim>\<open>set\<close> overwrites in place or appends.
\<close>

fun map_set :: "'k \<Rightarrow> 'v \<Rightarrow> ('k \<times> 'v) list \<Rightarrow> ('k \<times> 'v) list" where
  "map_set k v [] = [(k, v)]"
| "map_set k v (p # ps) = (if fst p = k then (k, v) # ps else p # map_set k v ps)"

definition groupStep ::
  "(string \<times> ScannedStudy) list \<Rightarrow> ScannedStudy \<Rightarrow> (string \<times> ScannedStudy) list"
where
  "groupStep groupedMap s =
     (let key = groupKey s in
      case map_of groupedMap key of
        Some existing \<Rightarrow>
          map_set key
            (existing\<lparr>quantity := js_add (quantity existing) (quantity s),
                      confidence := max (confidence existing) (confidence s),
                      originalText := None\<rparr>)
            groupedMap
      | None \<Rightarrow> map_set key s groupedMap)"

definition displayStudies :: "bool \<Rightarrow> ScannedStudy list \<Rightarrow> ScannedStudy list" where
  "displayStudies isGrouped sts =
     (if \<not> isGrouped then sts else map snd (foldl groupStep [] sts))"


definition deleteStudy :: "string \<Rightarrow> ScannedStudy list \<Rightarrow> ScannedStudy list" where
  "deleteStudy i prev = filter (\<lambda>s. study_id s \<noteq> i) prev"

text \<open>
  \<^verbatim>\<open>handleDelete\<close> of the study table. Each \<^verbatim>\<open>onDelete(id)\<close> queues a functional update of the
  study list, and the updates run one after the other on the current list.
\<close>

definition handleDelete :: "bool \<Rightarrow> ScannedStudy list \<Rightarrow> ScannedStudy \<Rightarrow> ScannedStudy list" where
  "handleDelete isGrouped sts study =
     (if isGrouped then
        (let idsToDelete =
               map study_id (filter (\<lambda>s. cpt s = cpt study \<and> name s = name study) sts)
         in foldl (\<lambda>prev i. deleteStudy i prev) sts idsToDelete)
      else deleteStudy (study_id study) sts)"

section \<open>The extraction call\<close>

text \<open>
  \<^verbatim>\<open>performOCRAndMatch\<close> of \<^verbatim>\<open>src/services/geminiService.ts\<close>. What lies outside the
  repository is a parameter: the two configuration values (each a string or
  \<^verbatim>\<open>undefined\<close>, as the bundler defines them), the outcome of the awaited
  \<^verbatim>\<open>generateContent\<close> call (a rejection, or a response whose \<^verbatim>\<open>text\<close> may be \<^verbatim>\<open>undefined\<close>),
  and \<^verbatim>\<open>JSON.parse\<close>, which returns a value or throws a \<^verbatim>\<open>SyntaxError\<close>.
\<close>

datatype json =
    JNull
  | JBool bool
  | JNumber real
  | JString string
  | JArray "json list"
  | JObject "(string \<times> json) list"

fun json_truthy :: "json \<Rightarrow> bool" where
  "json_truthy JNull = False"
| "json_truthy (JBool b) = b"
| "json_truthy (JNumber n) = (n \<noteq> 0)"
| "json_truthy (JString s) = (s \<noteq> [])"
| "json_truthy (JArray xs) = True"
| "json_truthy (JObject fs) = True"

record Env =
  VITE_GEMINI_API_KEY :: "string option"
  API_KEY :: "string option"

datatype api_outcome = Rejected | Response "string option"

text \<open>\<^verbatim>\<open>data.studies || []\<close>: reading a property of \<^verbatim>\<open>null\<close> throws, reading it from any
  other value without that property gives \<^verbatim>\<open>undefined\<close>.\<close>

fun studies_or_empty :: "json \<Rightarrow> js_error + json" where
  "studies_or_empty JNull = Inl TypeError"
| "studies_or_empty (JObject fs) =
     (case map_of fs ''studies'' of
        Some v \<Rightarrow> if json_truthy v then Inr v else Inr (JArray [])
      | None \<Rightarrow> Inr (JArray []))"
| "studies_or_empty v = Inr (JArray [])"

text \<open>\<^verbatim>\<open>jsonStr || '{"studies": []}'\<close>, the argument of \<^verbatim>\<open>JSON.parse\<close>.\<close>

definition text_or_default :: "string option \<Rightarrow> string" where
  "text_or_default jsonStr =
     (case jsonStr of
        Some s \<Rightarrow> if s \<noteq> [] then s else ''{\"studies\": []}''
      | None \<Rightarrow> ''{\"studies\": []}'')"

text \<open>The body of the \<^verbatim>\<open>try\<close> block, from the awaited call on.\<close>

definition tryExtract :: "(string \<Rightarrow> js_error + json) \<Rightarrow> api_outcome \<Rightarrow> js_error + json" where
  "tryExtract JSON_parse outcome =
     (case outcome of
        Rejected \<Rightarrow> Inl NetworkError
      | Response jsonStr \<Rightarrow>
          (case JSON_parse (text_or_default jsonStr) of
             Inl e \<Rightarrow> Inl e
           | Inr data \<Rightarrow> studies_or_empty data))"

text \<open>
  The result is the settled value of the promise (\<open>Inl\<close> a rejection that reaches the
  caller) together with the lines written by \<^verbatim>\<open>console.error\<close>.
\<close>

definition performOCRAndMatch ::
  "(string \<Rightarrow> js_error + json) \<Rightarrow> Env \<Rightarrow> api_outcome \<Rightarrow> (js_error + json) \<times> string list"
where
  "performOCRAndMatch JSON_parse env outcome =
     (let apiKey =
            (case VITE_GEMINI_API_KEY env of
               Some k \<Rightarrow> if k \<noteq> [] then Some k else API_KEY env
             | None \<Rightarrow> API_KEY env)
      in if apiKey = None \<or> apiKey = Some [] then
           (Inr (JArray []),
            [''No API key found. Check Netlify Environment Variables for VITE_GEMINI_API_KEY.''])
         else
           (case tryExtract JSON_parse outcome of
              Inl e \<Rightarrow> (Inr (JArray []), [''Gemini OCR Error:''])
            | Inr v \<Rightarrow> (Inr v, [])))"

section \<open>Token normalization\<close>

lemma toLowerChar_alnum: "is_alnum c \<Longrightarrow> toLowerChar c = c"
proof -
  have "\<forall>c \<in> set ''abcdefghijklmnopqrstuvwxyz0123456789''. toLowerChar c = c"
    by (simp add: toLowerChar_def)
  then show "is_alnum c \<Longrightarrow> toLowerChar c = c"
    unfolding is_alnum_def by blast
qed

lemma strip_alnum_fixed:
  assumes "\<forall>c \<in> set u. is_alnum c"
  shows "filter is_alnum (toLowerCase u) = u"
proof -
  have "toLowerCase u = u"
    unfolding toLowerCase_def using assms by (simp add: map_idI toLowerChar_alnum)
  then show ?thesis using assms by simp
qed

lemma abbreviation_values_fixed:
  "list_all (\<lambda>(k, v). v \<noteq> [] \<and> normalizeToken v = Word v) ABBREVIATIONS"
  by code_simp

text \<open>
  Whenever \<^verbatim>\<open>normalizeToken\<close> returns a string, normalizing that string returns it again:
  a stripped token that is no key of the table is its own normal form, and every value of
  the table is either no key or, as \<^verbatim>\<open>followup\<close>, mapped to itself.
\<close>

lemma normalizeToken_Word_idem:
  assumes "normalizeToken t = Word u"
  shows "normalizeToken u = Word u"
proof (cases "map_of ABBREVIATIONS (filter is_alnum (toLowerCase t))")
  case None
  with assms have u: "u = filter is_alnum (toLowerCase t)"
    by (auto simp: normalizeToken_def ABBREVIATIONS_get_def Let_def split: if_splits)
  then have "filter is_alnum (toLowerCase u) = u"
    by (intro strip_alnum_fixed) auto
  with None u assms show ?thesis
    by (auto simp: normalizeToken_def ABBREVIATIONS_get_def Let_def split: if_splits)
next
  case (Some v)
  then have "(filter is_alnum (toLowerCase t), v) \<in> set ABBREVIATIONS"
    by (rule map_of_SomeD)
  with abbreviation_values_fixed have "v \<noteq> [] \<and> normalizeToken v = Word v"
    by (auto simp: list_all_iff)
  moreover from Some assms this have "u = v"
    by (simp add: normalizeToken_def ABBREVIATIONS_get_def Let_def)
  ultimately show ?thesis by simp
qed

lemma normalizeToken_idempotent_on_strings:
  "normalizeToken t \<noteq> ObjectConstructor \<Longrightarrow>
     normalizeToken_value (normalizeToken t) = Inr (normalizeToken t)"
  by (cases "normalizeToken t") (simp_all add: normalizeToken_Word_idem)

text \<open>
  Claim C3. Token normalization is meant to be idempotent on every string. On the input
  \<^verbatim>\<open>constructor\<close> the table read finds the inherited property of the object literal, so
  \<^verbatim>\<open>normalizeToken\<close> returns the function \<^verbatim>\<open>Object\<close> instead of a string, and applying
  \<^verbatim>\<open>normalizeToken\<close> to that result throws a \<^verbatim>\<open>TypeError\<close> instead of returning it again.
\<close>

theorem normalizeToken_constructor:
  "normalizeToken ''constructor'' = ObjectConstructor
   \<and> normalizeToken_value (normalizeToken ''constructor'') = Inl TypeError"
  by code_simp

section \<open>The overlap score\<close>

lemma foldl_count_filter:
  "foldl (\<lambda>matches w. if w \<in> A then matches + 1 else matches) n ws
     = n + length (filter (\<lambda>w. w \<in> A) ws)"
  by (induction ws arbitrary: n) simp_all

lemma calculateWordOverlap_filter:
  "calculateWordOverlap s1 s2
     = length (filter (\<lambda>w. w \<in> set (getSignificantWords s1)) (getSignificantWords s2))"
  by (simp add: calculateWordOverlap_def Let_def foldl_count_filter)

lemma distinct_filter_card:
  assumes "distinct ws"
  shows "length (filter (\<lambda>w. w \<in> A) ws) = card (A \<inter> set ws)"
proof -
  have "distinct (filter (\<lambda>w. w \<in> A) ws)"
    using assms by simp
  then have "card (set (filter (\<lambda>w. w \<in> A) ws)) = length (filter (\<lambda>w. w \<in> A) ws)"
    by (rule distinct_card)
  moreover have "set (filter (\<lambda>w. w \<in> A) ws) = A \<inter> set ws"
    by auto
  ultimately show ?thesis by simp
qed

lemma gsw_mri_brain: "getSignificantWords ''MRI brain'' = [Word ''mri'', Word ''brain'']"
  by code_simp

lemma gsw_mri_brain_mr_angio:
  "getSignificantWords ''MRI Brain MR Angio''
     = [Word ''mri'', Word ''brain'', Word ''mri'', Word ''angio'']"
  by code_simp

lemma gsw_ct_head_wo_contrast:
  "getSignificantWords ''CT Head W/O Contrast''
     = [Word ''ct'', Word ''head'', Word ''without'', Word ''contrast'']"
  by code_simp

lemma gsw_ct_head_without_contrast:
  "getSignificantWords ''CT Head without contrast''
     = [Word ''ct'', Word ''head'', Word ''without'', Word ''contrast'']"
  by code_simp

text \<open>
  Claim C2, as stated, fails: the score is not the number of tokens common to the two
  token sets. The extracted text \<^verbatim>\<open>MRI brain\<close> and the catalog name
  \<^verbatim>\<open>MRI Brain MR Angio\<close> have two tokens in common, \<^verbatim>\<open>mri\<close> and \<^verbatim>\<open>brain\<close>, and the score
  is 3: the catalog name yields \<^verbatim>\<open>mri\<close> twice, and its tokens are counted with their
  repetitions.
\<close>

theorem overlap_not_common_count:
  "calculateWordOverlap ''MRI brain'' ''MRI Brain MR Angio'' = 3
   \<and> card (set (getSignificantWords ''MRI brain'')
            \<inter> set (getSignificantWords ''MRI Brain MR Angio'')) = 2"
  by (simp add: calculateWordOverlap_filter gsw_mri_brain gsw_mri_brain_mr_angio)

text \<open>
  Claim C2, amended. The overlap score of an extracted text \<open>s1\<close> and a catalog name
  \<open>s2\<close> is the number of entries of the catalog name's significant-token list,
  repetitions counted, that are present in the extracted text's significant-token set;
  when the catalog name's tokens are pairwise distinct, this is the number of tokens
  common to the two token sets.
\<close>

theorem overlap_counts_catalog_tokens:
  "calculateWordOverlap s1 s2
     = length (filter (\<lambda>w. w \<in> set (getSignificantWords s1)) (getSignificantWords s2))
   \<and> (distinct (getSignificantWords s2) \<longrightarrow>
        calculateWordOverlap s1 s2
          = card (set (getSignificantWords s1) \<inter> set (getSignificantWords s2)))"
  by (simp add: calculateWordOverlap_filter distinct_filter_card)

theorem overlap_counts_catalog_tokens_witness:
  "distinct (getSignificantWords ''CT Head without contrast'')
   \<and> calculateWordOverlap ''CT Head W/O Contrast'' ''CT Head without contrast'' = 4
   \<and> card (set (getSignificantWords ''CT Head W/O Contrast'')
            \<inter> set (getSignificantWords ''CT Head without contrast'')) = 4"
  using overlap_counts_catalog_tokens
    [of "''CT Head W/O Contrast''" "''CT Head without contrast''"]
  by (simp add: gsw_ct_head_wo_contrast gsw_ct_head_without_contrast)

section \<open>The overlap threshold\<close>

lemma overlapStep_cases:
  "overlapStep etext st e =
     (if min 4 (length (getSignificantWords (def_name e))) \<le> calculateWordOverlap etext (def_name e)
         \<and> snd st < calculateWordOverlap etext (def_name e)
      then (Some e, calculateWordOverlap etext (def_name e)) else st)"
  by (simp add: overlapStep_def Let_def)

lemma overlap_fold_accepted:
  assumes "fst st = None \<longrightarrow> snd st = 0"
    and "\<forall>d. fst st = Some d \<longrightarrow> d \<in> S \<and> calculateWordOverlap etext (def_name d) = snd st
                \<and> min 4 (length (getSignificantWords (def_name d))) \<le> snd st \<and> 0 < snd st"
    and "set db \<subseteq> S"
  shows "(fst (foldl (overlapStep etext) st db) = None \<longrightarrow> snd (foldl (overlapStep etext) st db) = 0)
       \<and> (\<forall>d. fst (foldl (overlapStep etext) st db) = Some d \<longrightarrow> d \<in> S
              \<and> calculateWordOverlap etext (def_name d) = snd (foldl (overlapStep etext) st db)
              \<and> min 4 (length (getSignificantWords (def_name d)))
                   \<le> snd (foldl (overlapStep etext) st db)
              \<and> 0 < snd (foldl (overlapStep etext) st db))"
  using assms
proof (induction db arbitrary: st)
  case Nil
  then show ?case by simp
next
  case (Cons e db)
  have 1: "fst (overlapStep etext st e) = None \<longrightarrow> snd (overlapStep etext st e) = 0"
    using Cons.prems(1) by (simp add: overlapStep_cases)
  have 2: "\<forall>d. fst (overlapStep etext st e) = Some d \<longrightarrow> d \<in> S
                \<and> calculateWordOverlap etext (def_name d) = snd (overlapStep etext st e)
                \<and> min 4 (length (getSignificantWords (def_name d))) \<le> snd (overlapStep etext st e)
                \<and> 0 < snd (overlapStep etext st e)"
    using Cons.prems(2,3) by (auto simp: overlapStep_cases)
  have 3: "set db \<subseteq> S" using Cons.prems(3) by simp
  show ?case
    using Cons.IH [OF 1 2 3] by simp
qed

lemma overlap_fold_mono:
  "snd st \<le> snd (foldl (overlapStep etext) st db)"
proof (induction db arbitrary: st)
  case Nil
  then show ?case by simp
next
  case (Cons e db)
  have "snd st \<le> snd (overlapStep etext st e)"
    by (simp add: overlapStep_cases)
  also have "\<dots> \<le> snd (foldl (overlapStep etext) (overlapStep etext st e) db)"
    by (rule Cons.IH)
  finally show ?case by simp
qed

lemma overlap_fold_highest:
  assumes "e \<in> set db"
    and "min 4 (length (getSignificantWords (def_name e))) \<le> calculateWordOverlap etext (def_name e)"
  shows "calculateWordOverlap etext (def_name e) \<le> snd (foldl (overlapStep etext) st db)"
  using assms(1)
proof (induction db arbitrary: st)
  case Nil
  then show ?case by simp
next
  case (Cons x db)
  show ?case
  proof (cases "e = x")
    case True
    have "calculateWordOverlap etext (def_name e) \<le> snd (overlapStep etext st e)"
      using assms(2) by (simp add: overlapStep_cases)
    also have "\<dots> \<le> snd (foldl (overlapStep etext) (overlapStep etext st e) db)"
      by (rule overlap_fold_mono)
    finally show ?thesis using True by simp
  next
    case False
    with Cons.prems have "e \<in> set db" by simp
    then show ?thesis using Cons.IH by simp
  qed
qed

lemma overlap_fold_below:
  assumes "snd st < n"
    and "\<forall>e\<in>set db. calculateWordOverlap etext (def_name e) < n
           \<or> calculateWordOverlap etext (def_name e) < min 4 (length (getSignificantWords (def_name e)))"
  shows "snd (foldl (overlapStep etext) st db) < n"
  using assms
proof (induction db arbitrary: st)
  case Nil
  then show ?case by simp
next
  case (Cons e db)
  have "snd (overlapStep etext st e) < n"
    using Cons.prems by (auto simp: overlapStep_cases)
  then show ?case using Cons.IH Cons.prems by simp
qed

lemma overlap_fold_stable:
  assumes "\<forall>e\<in>set db. calculateWordOverlap etext (def_name e) \<le> snd st
           \<or> calculateWordOverlap etext (def_name e) < min 4 (length (getSignificantWords (def_name e)))"
  shows "foldl (overlapStep etext) st db = st"
  using assms
proof (induction db)
  case Nil
  then show ?case by simp
next
  case (Cons e db)
  have "overlapStep etext st e = st"
    using Cons.prems by (auto simp: overlapStep_cases)
  then show ?case using Cons by simp
qed

lemma bestOverlapMatch_Some:
  assumes "bestOverlapMatch etext db = Some d"
  shows "d \<in> set db
    \<and> min 4 (length (getSignificantWords (def_name d))) \<le> calculateWordOverlap etext (def_name d)
    \<and> 0 < calculateWordOverlap etext (def_name d)
    \<and> calculateWordOverlap etext (def_name d) = snd (foldl (overlapStep etext) (None, 0) db)"
  using overlap_fold_accepted [of "(None, 0)" "set db" etext db] assms
  by (simp add: bestOverlapMatch_def)

lemma bestOverlapMatch_None:
  assumes "bestOverlapMatch etext db = None"
  shows "snd (foldl (overlapStep etext) (None, 0) db) = 0"
  using overlap_fold_accepted [of "(None, 0)" "set db" etext db] assms
  by (simp add: bestOverlapMatch_def)

lemma bestOverlapMatch_first_highest:
  assumes d: "min 4 (length (getSignificantWords (def_name d))) \<le> calculateWordOverlap etext (def_name d)"
      "0 < calculateWordOverlap etext (def_name d)"
    and pre: "\<forall>e\<in>set pre. calculateWordOverlap etext (def_name e) < calculateWordOverlap etext (def_name d)
           \<or> calculateWordOverlap etext (def_name e) < min 4 (length (getSignificantWords (def_name e)))"
    and post: "\<forall>e\<in>set post. calculateWordOverlap etext (def_name e) \<le> calculateWordOverlap etext (def_name d)
           \<or> calculateWordOverlap etext (def_name e) < min 4 (length (getSignificantWords (def_name e)))"
  shows "bestOverlapMatch etext (pre @ d # post) = Some d"
proof -
  let ?n = "calculateWordOverlap etext (def_name d)"
  let ?st = "foldl (overlapStep etext) (None, 0) pre"
  have "snd ?st < ?n"
    using d(2) pre by (intro overlap_fold_below) simp_all
  then have "overlapStep etext ?st d = (Some d, ?n)"
    using d(1) by (simp add: overlapStep_cases)
  moreover have "foldl (overlapStep etext) (Some d, ?n) post = (Some d, ?n)"
    using post by (intro overlap_fold_stable) simp
  ultimately show ?thesis
    by (simp add: bestOverlapMatch_def)
qed

lemma all_shared_overlap:
  assumes "set (getSignificantWords s2) \<subseteq> set (getSignificantWords s1)"
  shows "calculateWordOverlap s1 s2 = length (getSignificantWords s2)"
proof -
  have "filter (\<lambda>w. w \<in> set (getSignificantWords s1)) (getSignificantWords s2)
          = getSignificantWords s2"
    using assms by (auto intro: filter_True)
  then show ?thesis
    by (simp add: calculateWordOverlap_def Let_def foldl_count_filter)
qed

lemma gsw_mri_lumbar_spine:
  "getSignificantWords ''MRI Lumbar Spine'' = [Word ''mri'', Word ''lumbar'', Word ''spine'']"
  by code_simp

lemma gsw_mr_lumb_spine:
  "getSignificantWords ''MR Lumb Spine'' = [Word ''mri'', Word ''lumbar'', Word ''spine'']"
  by code_simp

lemma gsw_mr_spine: "getSignificantWords ''MR spine'' = [Word ''mri'', Word ''spine'']"
  by code_simp

lemma bestOverlapMatch_split:
  assumes "bestOverlapMatch etext db = Some d"
  shows "\<exists>pre post. db = pre @ d # post
           \<and> (\<forall>e\<in>set pre. calculateWordOverlap etext (def_name e) < calculateWordOverlap etext (def_name d)
                 \<or> calculateWordOverlap etext (def_name e)
                      < min 4 (length (getSignificantWords (def_name e))))
           \<and> (\<forall>e\<in>set post. calculateWordOverlap etext (def_name e) \<le> calculateWordOverlap etext (def_name d)
                 \<or> calculateWordOverlap etext (def_name e)
                      < min 4 (length (getSignificantWords (def_name e))))"
  using assms
proof (induction db arbitrary: d rule: rev_induct)
  case Nil
  then show ?case by (simp add: bestOverlapMatch_def)
next
  case (snoc x xs)
  let ?st = "foldl (overlapStep etext) (None, 0) xs"
  show ?case
  proof (cases "min 4 (length (getSignificantWords (def_name x))) \<le> calculateWordOverlap etext (def_name x)
                  \<and> snd ?st < calculateWordOverlap etext (def_name x)")
    case True
    then have "bestOverlapMatch etext (xs @ [x]) = Some x"
      by (simp add: bestOverlapMatch_def overlapStep_cases)
    with snoc.prems have dx: "d = x" by simp
    have "calculateWordOverlap etext (def_name e) < calculateWordOverlap etext (def_name x)
            \<or> calculateWordOverlap etext (def_name e)
                 < min 4 (length (getSignificantWords (def_name e)))"
      if "e \<in> set xs" for e
    proof (cases "min 4 (length (getSignificantWords (def_name e)))
                    \<le> calculateWordOverlap etext (def_name e)")
      case True
      with that have "calculateWordOverlap etext (def_name e) \<le> snd ?st"
        by (rule overlap_fold_highest)
      with \<open>_ \<and> snd ?st < _\<close> show ?thesis by simp
    next
      case False
      then show ?thesis by (simp only: not_le) blast
    qed
    then show ?thesis
      unfolding dx by (intro exI [of _ xs] exI [of _ "[]"]) simp
  next
    case False
    then have same: "foldl (overlapStep etext) (None, 0) (xs @ [x]) = ?st"
      by (auto simp: overlapStep_cases)
    with snoc.prems have b: "bestOverlapMatch etext xs = Some d"
      by (simp add: bestOverlapMatch_def)
    from snoc.IH [OF b] obtain pre post where pp: "xs = pre @ d # post"
      "\<forall>e\<in>set pre. calculateWordOverlap etext (def_name e) < calculateWordOverlap etext (def_name d)
                 \<or> calculateWordOverlap etext (def_name e)
                      < min 4 (length (getSignificantWords (def_name e)))"
      "\<forall>e\<in>set post. calculateWordOverlap etext (def_name e) \<le> calculateWordOverlap etext (def_name d)
                 \<or> calculateWordOverlap etext (def_name e)
                      < min 4 (length (getSignificantWords (def_name e)))"
      by blast
    from bestOverlapMatch_Some [OF b]
    have "calculateWordOverlap etext (def_name d) = snd ?st" by simp
    with False have "calculateWordOverlap etext (def_name x) \<le> calculateWordOverlap etext (def_name d)
        \<or> calculateWordOverlap etext (def_name x)
             < min 4 (length (getSignificantWords (def_name x)))"
      by auto
    with pp show ?thesis
      by (intro exI [of _ pre] exI [of _ "post @ [x]"]) auto
  qed
qed

lemma bestOverlapMatch_iff:
  "bestOverlapMatch etext db = Some d \<longleftrightarrow>
     (\<exists>pre post. db = pre @ d # post
        \<and> min 4 (length (getSignificantWords (def_name d))) \<le> calculateWordOverlap etext (def_name d)
        \<and> 0 < calculateWordOverlap etext (def_name d)
        \<and> (\<forall>e\<in>set pre. calculateWordOverlap etext (def_name e) < calculateWordOverlap etext (def_name d)
              \<or> calculateWordOverlap etext (def_name e)
                   < min 4 (length (getSignificantWords (def_name e))))
        \<and> (\<forall>e\<in>set post. calculateWordOverlap etext (def_name e) \<le> calculateWordOverlap etext (def_name d)
              \<or> calculateWordOverlap etext (def_name e)
                   < min 4 (length (getSignificantWords (def_name e)))))"
proof
  assume a: "bestOverlapMatch etext db = Some d"
  from bestOverlapMatch_split [OF a] bestOverlapMatch_Some [OF a]
  show "\<exists>pre post. db = pre @ d # post
        \<and> min 4 (length (getSignificantWords (def_name d))) \<le> calculateWordOverlap etext (def_name d)
        \<and> 0 < calculateWordOverlap etext (def_name d)
        \<and> (\<forall>e\<in>set pre. calculateWordOverlap etext (def_name e) < calculateWordOverlap etext (def_name d)
              \<or> calculateWordOverlap etext (def_name e)
                   < min 4 (length (getSignificantWords (def_name e))))
        \<and> (\<forall>e\<in>set post. calculateWordOverlap etext (def_name e) \<le> calculateWordOverlap etext (def_name d)
              \<or> calculateWordOverlap etext (def_name e)
                   < min 4 (length (getSignificantWords (def_name e))))"
    by blast
next
  assume "\<exists>pre post. db = pre @ d # post
        \<and> min 4 (length (getSignificantWords (def_name d))) \<le> calculateWordOverlap etext (def_name d)
        \<and> 0 < calculateWordOverlap etext (def_name d)
        \<and> (\<forall>e\<in>set pre. calculateWordOverlap etext (def_name e) < calculateWordOverlap etext (def_name d)
              \<or> calculateWordOverlap etext (def_name e)
                   < min 4 (length (getSignificantWords (def_name e))))
        \<and> (\<forall>e\<in>set post. calculateWordOverlap etext (def_name e) \<le> calculateWordOverlap etext (def_name d)
              \<or> calculateWordOverlap etext (def_name e)
                   < min 4 (length (getSignificantWords (def_name e))))"
  then show "bestOverlapMatch etext db = Some d"
    using bestOverlapMatch_first_highest by blast
qed

lemma matchExtracted_of_loop:
  assumes "bestOverlapMatch (extractedText ex) db = Some d"
  shows "\<exists>s. matchExtracted db newId ex i = Some s
           \<and> cpt s = def_cpt d \<and> name s = def_name d \<and> rvu s = def_rvu d"
  using assms by (simp add: matchExtracted_def)

lemma matchExtracted_name:
  assumes "matchExtracted db newId ex i = Some s"
  shows "(\<exists>m. bestOverlapMatch (extractedText ex) db = Some m \<and> name s = def_name m)
       \<or> (\<exists>m\<in>set db. strip_alnum (def_name m) = strip_alnum (ex_name ex) \<and> name s = def_name m)"
proof (cases "bestOverlapMatch (extractedText ex) db")
  case None
  with assms obtain m where m: "exactNameMatch ex db = Some m" "name s = def_name m"
    by (auto simp: matchExtracted_def Let_def split: option.splits)
  then have "m \<in> set db \<and> strip_alnum (def_name m) = strip_alnum (ex_name ex)"
    by (auto simp: exactNameMatch_def find_Some_iff)
  with m show ?thesis by blast
next
  case (Some m)
  with assms show ?thesis
    by (auto simp: matchExtracted_def Let_def)
qed

lemma gsw_mri_lumbar_spine_with_contrast:
  "getSignificantWords ''MRI Lumbar Spine with contrast''
     = [Word ''mri'', Word ''lumbar'', Word ''spine'', Word ''with'', Word ''contrast'']"
  by code_simp

lemma gsw_mr_lumb_spine_w_cont:
  "getSignificantWords ''MR lumb spine w cont''
     = [Word ''mri'', Word ''lumbar'', Word ''spine'', Word ''with'', Word ''contrast'']"
  by code_simp

lemma gsw_ct: "getSignificantWords ''CT'' = [Word ''ct'']"
  by code_simp

lemma gsw_ct_head_neck_chest_abdomen:
  "getSignificantWords ''CT Head Neck Chest Abdomen''
     = [Word ''ct'', Word ''head'', Word ''neck'', Word ''chest'', Word ''abdomen'']"
  by code_simp

lemma gsw_ct_head_neck_lower:
  "getSignificantWords ''ct head neck'' = [Word ''ct'', Word ''head'', Word ''neck'']"
  by code_simp

lemma gsw_spine_mri: "getSignificantWords ''Spine MRI'' = [Word ''spine'', Word ''mri'']"
  by code_simp

lemma strip_mri_lumbar_spine: "strip_alnum ''MRI Lumbar Spine'' = ''mrilumbarspine''"
  by code_simp

lemma strip_spine_mri: "strip_alnum ''Spine MRI'' = ''spinemri''"
  by code_simp

lemma strip_ct_head_without_contrast:
  "strip_alnum ''CT Head without contrast'' = ''ctheadwithoutcontrast''"
  by code_simp

text \<open>
  Claim C1, as stated, fails in each of its parts.
  An extracted text that shares all 3 tokens of a 3-token entry need not be matched to it:
  with the catalog \<^verbatim>\<open>MRI Lumbar Spine\<close>, \<^verbatim>\<open>MRI Lumbar Spine with contrast\<close>, the text
  \<^verbatim>\<open>MR lumb spine w cont\<close> is matched to the second entry, which scores 5.
  An extracted text that shares only 2 of the 3 tokens can still be matched to the entry:
  the item with original text \<^verbatim>\<open>MR spine\<close> and name \<^verbatim>\<open>MRI Lumbar Spine\<close> is matched to
  \<^verbatim>\<open>MRI Lumbar Spine\<close> by the exact-name fallback.
  The accepted entry need not have the highest overlap score: with the catalog \<^verbatim>\<open>CT\<close>,
  \<^verbatim>\<open>CT Head Neck Chest Abdomen\<close>, the text \<^verbatim>\<open>ct head neck\<close> is matched to \<^verbatim>\<open>CT\<close>, of
  score 1, while the other entry scores 3 and misses its threshold of 4.
\<close>

theorem overlap_claim_fails:
  "length (getSignificantWords ''MRI Lumbar Spine'') = 3
   \<and> set (getSignificantWords ''MRI Lumbar Spine'')
        \<subseteq> set (getSignificantWords ''MR lumb spine w cont'')
   \<and> matchExtracted
        [\<lparr>def_cpt = ''72148'', def_name = ''MRI Lumbar Spine'', def_rvu = 1, def_category = MRI\<rparr>,
         \<lparr>def_cpt = ''72149'', def_name = ''MRI Lumbar Spine with contrast'', def_rvu = 2,
           def_category = MRI\<rparr>]
        (\<lambda>i. ''id'')
        \<lparr>ex_cpt = ''72148'', ex_name = ''MRI Lumbar Spine'', ex_quantity = Some 1,
          ex_originalText = Some ''MR lumb spine w cont'', ex_confidence = Some 1\<rparr> 0
      = Some \<lparr>study_id = ''id'', cpt = ''72149'', name = ''MRI Lumbar Spine with contrast'',
          rvu = 2, quantity = 1, confidence = 1,
          originalText = Some ''MR lumb spine w cont''\<rparr>
   \<and> length (filter (\<lambda>w. w \<in> set (getSignificantWords ''MR spine''))
               (getSignificantWords ''MRI Lumbar Spine'')) = 2
   \<and> matchExtracted
        [\<lparr>def_cpt = ''72148'', def_name = ''MRI Lumbar Spine'', def_rvu = 1, def_category = MRI\<rparr>]
        (\<lambda>i. ''id'')
        \<lparr>ex_cpt = ''72148'', ex_name = ''MRI Lumbar Spine'', ex_quantity = Some 1,
          ex_originalText = Some ''MR spine'', ex_confidence = Some 1\<rparr> 0
      = Some \<lparr>study_id = ''id'', cpt = ''72148'', name = ''MRI Lumbar Spine'', rvu = 1,
          quantity = 1, confidence = 1, originalText = Some ''MR spine''\<rparr>
   \<and> calculateWordOverlap ''ct head neck'' ''CT'' = 1
   \<and> calculateWordOverlap ''ct head neck'' ''CT Head Neck Chest Abdomen'' = 3
   \<and> matchExtracted
        [\<lparr>def_cpt = ''76497'', def_name = ''CT'', def_rvu = 1, def_category = CT\<rparr>,
         \<lparr>def_cpt = ''74177'', def_name = ''CT Head Neck Chest Abdomen'', def_rvu = 2,
           def_category = CT\<rparr>]
        (\<lambda>i. ''id'')
        \<lparr>ex_cpt = ''74177'', ex_name = ''ct head neck'', ex_quantity = Some 1,
          ex_originalText = None, ex_confidence = Some 1\<rparr> 0
      = Some \<lparr>study_id = ''id'', cpt = ''76497'', name = ''CT'', rvu = 1, quantity = 1,
          confidence = 1, originalText = None\<rparr>"
  by (simp add: matchExtracted_def extractedText_def bestOverlapMatch_def overlapStep_cases
        exactNameMatch_def calculateWordOverlap_filter gsw_mri_lumbar_spine gsw_mr_spine
        gsw_mri_lumbar_spine_with_contrast gsw_mr_lumb_spine_w_cont gsw_ct
        gsw_ct_head_neck_chest_abdomen gsw_ct_head_neck_lower strip_mri_lumbar_spine)

text \<open>
  Claim C1, amended. The overlap loop of the matching step (\<^verbatim>\<open>db.forEach\<close> in
  \<^verbatim>\<open>processFile\<close>) accepts exactly the first catalog entry that has the highest overlap
  score among the entries whose score is positive and at least the minimum of 4 and the
  number of significant tokens of their name; an entry that scores higher and misses its
  own threshold is passed over. The item is then matched to the accepted entry.
  For a catalog entry \<open>d\<close> whose name yields exactly 3 significant tokens:
  an item whose extracted text contains all 3 is matched to an entry that reaches its
  threshold with a score of at least 3, and to \<open>d\<close> itself when no earlier entry
  reaching its threshold scores 3 or more and no later one scores more than 3;
  an item whose extracted text contains only 2 of the 3 never has \<open>d\<close> accepted by the
  loop, and is matched to no entry of that name unless the stripped names are equal,
  which is the exact-name fallback.
\<close>

theorem overlap_acceptance:
  "(bestOverlapMatch etext db = Some d \<longleftrightarrow>
      (\<exists>pre post. db = pre @ d # post
         \<and> min 4 (length (getSignificantWords (def_name d))) \<le> calculateWordOverlap etext (def_name d)
         \<and> 0 < calculateWordOverlap etext (def_name d)
         \<and> (\<forall>e\<in>set pre. calculateWordOverlap etext (def_name e) < calculateWordOverlap etext (def_name d)
               \<or> calculateWordOverlap etext (def_name e)
                    < min 4 (length (getSignificantWords (def_name e))))
         \<and> (\<forall>e\<in>set post. calculateWordOverlap etext (def_name e) \<le> calculateWordOverlap etext (def_name d)
               \<or> calculateWordOverlap etext (def_name e)
                    < min 4 (length (getSignificantWords (def_name e))))))
   \<and> (bestOverlapMatch (extractedText ex) db = Some d \<longrightarrow>
        (\<exists>s. matchExtracted db newId ex i = Some s
           \<and> cpt s = def_cpt d \<and> name s = def_name d \<and> rvu s = def_rvu d))
   \<and> (length (getSignificantWords (def_name d)) = 3
        \<and> set (getSignificantWords (def_name d)) \<subseteq> set (getSignificantWords (extractedText ex))
        \<and> d \<in> set db
      \<longrightarrow> (\<exists>m s. m \<in> set db
             \<and> 3 \<le> calculateWordOverlap (extractedText ex) (def_name m)
             \<and> min 4 (length (getSignificantWords (def_name m)))
                  \<le> calculateWordOverlap (extractedText ex) (def_name m)
             \<and> matchExtracted db newId ex i = Some s
             \<and> cpt s = def_cpt m \<and> name s = def_name m \<and> rvu s = def_rvu m))
   \<and> (length (getSignificantWords (def_name d)) = 3
        \<and> set (getSignificantWords (def_name d)) \<subseteq> set (getSignificantWords (extractedText ex))
        \<and> (\<forall>e\<in>set before. calculateWordOverlap (extractedText ex) (def_name e) < 3
              \<or> calculateWordOverlap (extractedText ex) (def_name e)
                   < min 4 (length (getSignificantWords (def_name e))))
        \<and> (\<forall>e\<in>set after. calculateWordOverlap (extractedText ex) (def_name e) \<le> 3
              \<or> calculateWordOverlap (extractedText ex) (def_name e)
                   < min 4 (length (getSignificantWords (def_name e))))
      \<longrightarrow> (\<exists>s. matchExtracted (before @ d # after) newId ex i = Some s
             \<and> cpt s = def_cpt d \<and> name s = def_name d \<and> rvu s = def_rvu d))
   \<and> (length (getSignificantWords (def_name d)) = 3
        \<and> length (filter (\<lambda>w. w \<in> set (getSignificantWords (extractedText ex)))
                     (getSignificantWords (def_name d))) = 2
      \<longrightarrow> bestOverlapMatch (extractedText ex) db \<noteq> Some d
        \<and> (strip_alnum (def_name d) \<noteq> strip_alnum (ex_name ex) \<longrightarrow>
             (\<forall>s. matchExtracted db newId ex i = Some s \<longrightarrow> name s \<noteq> def_name d)))"
proof (intro conjI)
  show "bestOverlapMatch etext db = Some d \<longleftrightarrow>
      (\<exists>pre post. db = pre @ d # post
         \<and> min 4 (length (getSignificantWords (def_name d))) \<le> calculateWordOverlap etext (def_name d)
         \<and> 0 < calculateWordOverlap etext (def_name d)
         \<and> (\<forall>e\<in>set pre. calculateWordOverlap etext (def_name e) < calculateWordOverlap etext (def_name d)
               \<or> calculateWordOverlap etext (def_name e)
                    < min 4 (length (getSignificantWords (def_name e))))
         \<and> (\<forall>e\<in>set post. calculateWordOverlap etext (def_name e) \<le> calculateWordOverlap etext (def_name d)
               \<or> calculateWordOverlap etext (def_name e)
                    < min 4 (length (getSignificantWords (def_name e)))))"
    by (rule bestOverlapMatch_iff)
next
  show "bestOverlapMatch (extractedText ex) db = Some d \<longrightarrow>
        (\<exists>s. matchExtracted db newId ex i = Some s
           \<and> cpt s = def_cpt d \<and> name s = def_name d \<and> rvu s = def_rvu d)"
    using matchExtracted_of_loop by blast
next
  show "length (getSignificantWords (def_name d)) = 3
        \<and> set (getSignificantWords (def_name d)) \<subseteq> set (getSignificantWords (extractedText ex))
        \<and> d \<in> set db
      \<longrightarrow> (\<exists>m s. m \<in> set db
             \<and> 3 \<le> calculateWordOverlap (extractedText ex) (def_name m)
             \<and> min 4 (length (getSignificantWords (def_name m)))
                  \<le> calculateWordOverlap (extractedText ex) (def_name m)
             \<and> matchExtracted db newId ex i = Some s
             \<and> cpt s = def_cpt m \<and> name s = def_name m \<and> rvu s = def_rvu m)"
  proof
    assume a: "length (getSignificantWords (def_name d)) = 3
        \<and> set (getSignificantWords (def_name d)) \<subseteq> set (getSignificantWords (extractedText ex))
        \<and> d \<in> set db"
    then have n: "calculateWordOverlap (extractedText ex) (def_name d) = 3"
      by (simp add: all_shared_overlap)
    with a have thr: "min 4 (length (getSignificantWords (def_name d)))
        \<le> calculateWordOverlap (extractedText ex) (def_name d)"
      by simp
    have hi: "3 \<le> snd (foldl (overlapStep (extractedText ex)) (None, 0) db)"
      using overlap_fold_highest [of d db "extractedText ex" "(None, 0)"] a thr n by simp
    obtain m where m: "bestOverlapMatch (extractedText ex) db = Some m"
    proof (cases "bestOverlapMatch (extractedText ex) db")
      case None
      from bestOverlapMatch_None [OF None] hi show ?thesis by simp
    next
      case (Some m)
      with that show ?thesis by blast
    qed
    from bestOverlapMatch_Some [OF m] hi
    have "m \<in> set db" "3 \<le> calculateWordOverlap (extractedText ex) (def_name m)"
      "min 4 (length (getSignificantWords (def_name m)))
         \<le> calculateWordOverlap (extractedText ex) (def_name m)"
      by simp_all
    with matchExtracted_of_loop [OF m, of newId i]
    show "\<exists>m s. m \<in> set db
             \<and> 3 \<le> calculateWordOverlap (extractedText ex) (def_name m)
             \<and> min 4 (length (getSignificantWords (def_name m)))
                  \<le> calculateWordOverlap (extractedText ex) (def_name m)
             \<and> matchExtracted db newId ex i = Some s
             \<and> cpt s = def_cpt m \<and> name s = def_name m \<and> rvu s = def_rvu m"
      by blast
  qed
next
  show "length (getSignificantWords (def_name d)) = 3
        \<and> set (getSignificantWords (def_name d)) \<subseteq> set (getSignificantWords (extractedText ex))
        \<and> (\<forall>e\<in>set before. calculateWordOverlap (extractedText ex) (def_name e) < 3
              \<or> calculateWordOverlap (extractedText ex) (def_name e)
                   < min 4 (length (getSignificantWords (def_name e))))
        \<and> (\<forall>e\<in>set after. calculateWordOverlap (extractedText ex) (def_name e) \<le> 3
              \<or> calculateWordOverlap (extractedText ex) (def_name e)
                   < min 4 (length (getSignificantWords (def_name e))))
      \<longrightarrow> (\<exists>s. matchExtracted (before @ d # after) newId ex i = Some s
             \<and> cpt s = def_cpt d \<and> name s = def_name d \<and> rvu s = def_rvu d)"
  proof
    assume a: "length (getSignificantWords (def_name d)) = 3
        \<and> set (getSignificantWords (def_name d)) \<subseteq> set (getSignificantWords (extractedText ex))
        \<and> (\<forall>e\<in>set before. calculateWordOverlap (extractedText ex) (def_name e) < 3
              \<or> calculateWordOverlap (extractedText ex) (def_name e)
                   < min 4 (length (getSignificantWords (def_name e))))
        \<and> (\<forall>e\<in>set after. calculateWordOverlap (extractedText ex) (def_name e) \<le> 3
              \<or> calculateWordOverlap (extractedText ex) (def_name e)
                   < min 4 (length (getSignificantWords (def_name e))))"
    then have n: "calculateWordOverlap (extractedText ex) (def_name d) = 3"
      by (simp add: all_shared_overlap)
    have "bestOverlapMatch (extractedText ex) (before @ d # after) = Some d"
      using a n by (intro bestOverlapMatch_first_highest) simp_all
    then show "\<exists>s. matchExtracted (before @ d # after) newId ex i = Some s
             \<and> cpt s = def_cpt d \<and> name s = def_name d \<and> rvu s = def_rvu d"
      by (rule matchExtracted_of_loop)
  qed
next
  show "length (getSignificantWords (def_name d)) = 3
        \<and> length (filter (\<lambda>w. w \<in> set (getSignificantWords (extractedText ex)))
                     (getSignificantWords (def_name d))) = 2
      \<longrightarrow> bestOverlapMatch (extractedText ex) db \<noteq> Some d
        \<and> (strip_alnum (def_name d) \<noteq> strip_alnum (ex_name ex) \<longrightarrow>
             (\<forall>s. matchExtracted db newId ex i = Some s \<longrightarrow> name s \<noteq> def_name d))"
  proof (intro impI conjI allI)
    assume a: "length (getSignificantWords (def_name d)) = 3
        \<and> length (filter (\<lambda>w. w \<in> set (getSignificantWords (extractedText ex)))
                     (getSignificantWords (def_name d))) = 2"
    then have n: "calculateWordOverlap (extractedText ex) (def_name d) = 2"
      by (simp add: calculateWordOverlap_filter)
    show no: "bestOverlapMatch (extractedText ex) db \<noteq> Some d"
    proof
      assume "bestOverlapMatch (extractedText ex) db = Some d"
      from bestOverlapMatch_Some [OF this] a n show False by simp
    qed
    fix s
    assume diff: "strip_alnum (def_name d) \<noteq> strip_alnum (ex_name ex)"
      and ms: "matchExtracted db newId ex i = Some s"
    show "name s \<noteq> def_name d"
    proof
      assume eq: "name s = def_name d"
      from matchExtracted_name [OF ms] show False
      proof
        assume "\<exists>m. bestOverlapMatch (extractedText ex) db = Some m \<and> name s = def_name m"
        then obtain m where m: "bestOverlapMatch (extractedText ex) db = Some m"
          "def_name m = def_name d"
          using eq by auto
        from bestOverlapMatch_Some [OF m(1)] m(2) a n show False by simp
      next
        assume "\<exists>m\<in>set db. strip_alnum (def_name m) = strip_alnum (ex_name ex)
                  \<and> name s = def_name m"
        with eq diff show False by auto
      qed
    qed
  qed
qed

theorem overlap_acceptance_witness:
  "bestOverlapMatch ''MR Lumb Spine''
     [\<lparr>def_cpt = ''70450'', def_name = ''CT Head without contrast'', def_rvu = 1,
        def_category = CT\<rparr>,
      \<lparr>def_cpt = ''72148'', def_name = ''MRI Lumbar Spine'', def_rvu = 2, def_category = MRI\<rparr>]
     = Some \<lparr>def_cpt = ''72148'', def_name = ''MRI Lumbar Spine'', def_rvu = 2,
         def_category = MRI\<rparr>
   \<and> (\<exists>s. matchExtracted
          [\<lparr>def_cpt = ''70450'', def_name = ''CT Head without contrast'', def_rvu = 1,
             def_category = CT\<rparr>,
           \<lparr>def_cpt = ''72148'', def_name = ''MRI Lumbar Spine'', def_rvu = 2,
             def_category = MRI\<rparr>]
          (\<lambda>i. ''id'')
          \<lparr>ex_cpt = ''72148'', ex_name = ''Spine MRI'', ex_quantity = Some 1,
            ex_originalText = Some ''MR Lumb Spine'', ex_confidence = Some 1\<rparr> 0 = Some s
        \<and> cpt s = ''72148'' \<and> name s = ''MRI Lumbar Spine'' \<and> rvu s = 2)
   \<and> length (filter (\<lambda>w. w \<in> set (getSignificantWords ''MR spine''))
               (getSignificantWords ''MRI Lumbar Spine'')) = 2
   \<and> strip_alnum ''MRI Lumbar Spine'' \<noteq> strip_alnum ''Spine MRI''
   \<and> bestOverlapMatch ''MR spine''
     [\<lparr>def_cpt = ''70450'', def_name = ''CT Head without contrast'', def_rvu = 1,
        def_category = CT\<rparr>,
      \<lparr>def_cpt = ''72148'', def_name = ''MRI Lumbar Spine'', def_rvu = 2, def_category = MRI\<rparr>]
     \<noteq> Some \<lparr>def_cpt = ''72148'', def_name = ''MRI Lumbar Spine'', def_rvu = 2,
         def_category = MRI\<rparr>
   \<and> matchExtracted
          [\<lparr>def_cpt = ''70450'', def_name = ''CT Head without contrast'', def_rvu = 1,
             def_category = CT\<rparr>,
           \<lparr>def_cpt = ''72148'', def_name = ''MRI Lumbar Spine'', def_rvu = 2,
             def_category = MRI\<rparr>]
          (\<lambda>i. ''id'')
          \<lparr>ex_cpt = ''72148'', ex_name = ''Spine MRI'', ex_quantity = Some 1,
            ex_originalText = Some ''MR spine'', ex_confidence = Some 1\<rparr> 0 = None"
  using
    overlap_acceptance
      [where etext = "''MR Lumb Spine''"
         and d = "\<lparr>def_cpt = ''72148'', def_name = ''MRI Lumbar Spine'', def_rvu = 2,
                    def_category = MRI\<rparr>"
         and before = "[\<lparr>def_cpt = ''70450'', def_name = ''CT Head without contrast'',
                      def_rvu = 1, def_category = CT\<rparr>]"
         and after = "[]"
         and db = "[\<lparr>def_cpt = ''70450'', def_name = ''CT Head without contrast'',
                     def_rvu = 1, def_category = CT\<rparr>,
                   \<lparr>def_cpt = ''72148'', def_name = ''MRI Lumbar Spine'', def_rvu = 2,
                     def_category = MRI\<rparr>]"
         and ex = "\<lparr>ex_cpt = ''72148'', ex_name = ''Spine MRI'', ex_quantity = Some 1,
                    ex_originalText = Some ''MR Lumb Spine'', ex_confidence = Some 1\<rparr>"
         and newId = "\<lambda>i. ''id''" and i = 0]
    overlap_acceptance
      [where etext = "''MR spine''"
         and d = "\<lparr>def_cpt = ''72148'', def_name = ''MRI Lumbar Spine'', def_rvu = 2,
                    def_category = MRI\<rparr>"
         and before = "[]" and after = "[]"
         and db = "[\<lparr>def_cpt = ''70450'', def_name = ''CT Head without contrast'',
                     def_rvu = 1, def_category = CT\<rparr>,
                   \<lparr>def_cpt = ''72148'', def_name = ''MRI Lumbar Spine'', def_rvu = 2,
                     def_category = MRI\<rparr>]"
         and ex = "\<lparr>ex_cpt = ''72148'', ex_name = ''Spine MRI'', ex_quantity = Some 1,
                    ex_originalText = Some ''MR spine'', ex_confidence = Some 1\<rparr>"
         and newId = "\<lambda>i. ''id''" and i = 0]
  by (simp add: matchExtracted_def extractedText_def bestOverlapMatch_def overlapStep_cases
        exactNameMatch_def calculateWordOverlap_filter gsw_mri_lumbar_spine gsw_mr_spine
        gsw_mr_lumb_spine gsw_ct_head_without_contrast strip_mri_lumbar_spine strip_spine_mri
        strip_ct_head_without_contrast)

section \<open>Scanned studies come from the catalog\<close>

lemma matchExtracted_ignores_cpt:
  "matchExtracted db newId (ex\<lparr>ex_cpt := c\<rparr>) i = matchExtracted db newId ex i"
proof -
  have 1: "extractedText (ex\<lparr>ex_cpt := c\<rparr>) = extractedText ex"
    by (simp add: extractedText_def split: option.splits)
  have 2: "exactNameMatch (ex\<lparr>ex_cpt := c\<rparr>) db = exactNameMatch ex db"
    by (simp add: exactNameMatch_def)
  show ?thesis
    by (simp add: matchExtracted_def 1 2 Let_def split: option.splits)
qed

lemma enumerate_map_arg:
  "map (\<lambda>(index, ex). F ex index) (enumerate n (map g exs))
     = map (\<lambda>(index, ex). F (g ex) index) (enumerate n exs)"
  by (induction exs arbitrary: n) simp_all

lemma matchExtracted_accepted:
  assumes "matchExtracted db newId ex i = Some s"
  shows "(\<exists>d\<in>set db.
            (bestOverlapMatch (extractedText ex) db = Some d
               \<or> bestOverlapMatch (extractedText ex) db = None \<and> exactNameMatch ex db = Some d)
            \<and> cpt s = def_cpt d \<and> name s = def_name d \<and> rvu s = def_rvu d)
       \<and> study_id s = newId i
       \<and> (ex_quantity ex = None \<or> ex_quantity ex = Some 0 \<longrightarrow> quantity s = 1)
       \<and> (\<forall>q. ex_quantity ex = Some q \<and> q \<noteq> 0 \<longrightarrow> quantity s = q)
       \<and> (ex_confidence ex = None \<longrightarrow> confidence s = 0)
       \<and> (\<forall>c. ex_confidence ex = Some c \<longrightarrow> confidence s = c)
       \<and> originalText s = ex_originalText ex"
proof (cases "bestOverlapMatch (extractedText ex) db")
  case None
  with assms obtain d where d: "exactNameMatch ex db = Some d"
    by (auto simp: matchExtracted_def Let_def split: option.splits)
  then have "d \<in> set db"
    by (auto simp: exactNameMatch_def find_Some_iff)
  with None d assms show ?thesis
    by (auto simp: matchExtracted_def Let_def split: option.splits)
next
  case (Some d)
  then have "d \<in> set db"
    using bestOverlapMatch_Some by blast
  with Some assms show ?thesis
    by (auto simp: matchExtracted_def Let_def split: option.splits)
qed

lemma accepted_matchExtracted:
  assumes "bestOverlapMatch (extractedText ex) db = Some d
             \<or> bestOverlapMatch (extractedText ex) db = None \<and> exactNameMatch ex db = Some d"
  shows "\<exists>s. matchExtracted db newId ex i = Some s
           \<and> cpt s = def_cpt d \<and> name s = def_name d \<and> rvu s = def_rvu d"
  using assms by (auto simp: matchExtracted_def)

lemma processExtracted_iff:
  "s \<in> set (processExtracted db newId exs)
     \<longleftrightarrow> (\<exists>j<length exs. matchExtracted db newId (exs ! j) j = Some s)"
proof
  assume "s \<in> set (processExtracted db newId exs)"
  then obtain j ex where p: "(j, ex) \<in> set (enumerate 0 exs)"
      "matchExtracted db newId ex j = Some s"
    by (auto simp: processExtracted_def)
  from p(1) have "j < length exs \<and> exs ! j = ex"
    by (auto simp: in_set_enumerate_eq)
  with p(2) show "\<exists>j<length exs. matchExtracted db newId (exs ! j) j = Some s"
    by blast
next
  assume "\<exists>j<length exs. matchExtracted db newId (exs ! j) j = Some s"
  then obtain j where j: "j < length exs" "matchExtracted db newId (exs ! j) j = Some s"
    by blast
  then have "(j, exs ! j) \<in> set (enumerate 0 exs)"
    by (simp add: in_set_enumerate_eq)
  with j(2) have "Some s \<in> set (map (\<lambda>(index, ex). matchExtracted db newId ex index)
                                   (enumerate 0 exs))"
    by force
  then have "Some s \<in> set (filter (\<lambda>r. r \<noteq> None)
                (map (\<lambda>(index, ex). matchExtracted db newId ex index) (enumerate 0 exs)))"
    by simp
  then have "the (Some s) \<in> the ` set (filter (\<lambda>r. r \<noteq> None)
                (map (\<lambda>(index, ex). matchExtracted db newId ex index) (enumerate 0 exs)))"
    by (rule imageI)
  then show "s \<in> set (processExtracted db newId exs)"
    by (simp add: processExtracted_def)
qed

lemma best_mr_lumb_spine:
  "bestOverlapMatch ''MR Lumb Spine''
     [\<lparr>def_cpt = c1, def_name = ''CT Head without contrast'', def_rvu = r1, def_category = k1\<rparr>,
      \<lparr>def_cpt = c2, def_name = ''MRI Lumbar Spine'', def_rvu = r2, def_category = k2\<rparr>]
     = Some \<lparr>def_cpt = c2, def_name = ''MRI Lumbar Spine'', def_rvu = r2, def_category = k2\<rparr>"
  by (simp add: bestOverlapMatch_def overlapStep_cases calculateWordOverlap_filter
        gsw_ct_head_without_contrast gsw_mri_lumbar_spine gsw_mr_lumb_spine)

lemma best_ct_head_of_two:
  "bestOverlapMatch ''CT Head W/O Contrast''
     [\<lparr>def_cpt = c1, def_name = ''CT Head without contrast'', def_rvu = r1, def_category = k1\<rparr>,
      \<lparr>def_cpt = c2, def_name = ''MRI Lumbar Spine'', def_rvu = r2, def_category = k2\<rparr>]
     = Some \<lparr>def_cpt = c1, def_name = ''CT Head without contrast'', def_rvu = r1,
         def_category = k1\<rparr>"
  by (simp add: bestOverlapMatch_def overlapStep_cases calculateWordOverlap_filter
        gsw_ct_head_without_contrast gsw_mri_lumbar_spine gsw_ct_head_wo_contrast)

lemma processed_two_items:
  "processExtracted
     [\<lparr>def_cpt = ''70450'', def_name = ''CT Head without contrast'', def_rvu = r1,
        def_category = CT\<rparr>,
      \<lparr>def_cpt = ''72148'', def_name = ''MRI Lumbar Spine'', def_rvu = r2, def_category = MRI\<rparr>]
     (\<lambda>i. if i = 0 then ''first'' else ''second'')
     [\<lparr>ex_cpt = ''99999'', ex_name = ''Lumbar MRI'', ex_quantity = None,
        ex_originalText = Some ''MR Lumb Spine'', ex_confidence = None\<rparr>,
      \<lparr>ex_cpt = ''99999'', ex_name = ''Head CT'', ex_quantity = Some 5,
        ex_originalText = Some ''CT Head W/O Contrast'', ex_confidence = Some q\<rparr>]
   = [\<lparr>study_id = ''first'', cpt = ''72148'', name = ''MRI Lumbar Spine'', rvu = r2,
        quantity = 1, confidence = 0, originalText = Some ''MR Lumb Spine''\<rparr>,
      \<lparr>study_id = ''second'', cpt = ''70450'', name = ''CT Head without contrast'', rvu = r1,
        quantity = 5, confidence = q, originalText = Some ''CT Head W/O Contrast''\<rparr>]"
  by (simp add: processExtracted_def matchExtracted_def extractedText_def best_mr_lumb_spine
        best_ct_head_of_two)

text \<open>
  Claim C10. Every scanned study that the matching step produces for an extracted item
  takes its code, name and RVU weight from one catalog entry, the entry that the match
  accepted for this item (the entry of the overlap loop, or else the entry of the
  exact-name fallback), and every accepted entry gives such a study. The study's quantity
  is 1 when the item's quantity is missing or zero and the item's quantity otherwise; its
  confidence is 0 when the item's confidence is missing and the item's confidence
  otherwise. The studies of a batch are exactly the studies of its items, each made from
  its own item and index, and the code reported by the extraction has no influence on
  the result.
\<close>

theorem matched_study_fields:
  "(matchExtracted db newId ex i = Some s \<longrightarrow>
      (\<exists>d\<in>set db.
          (bestOverlapMatch (extractedText ex) db = Some d
             \<or> bestOverlapMatch (extractedText ex) db = None \<and> exactNameMatch ex db = Some d)
          \<and> cpt s = def_cpt d \<and> name s = def_name d \<and> rvu s = def_rvu d)
      \<and> study_id s = newId i
      \<and> (ex_quantity ex = None \<or> ex_quantity ex = Some 0 \<longrightarrow> quantity s = 1)
      \<and> (\<forall>q. ex_quantity ex = Some q \<and> q \<noteq> 0 \<longrightarrow> quantity s = q)
      \<and> (ex_confidence ex = None \<longrightarrow> confidence s = 0)
      \<and> (\<forall>c. ex_confidence ex = Some c \<longrightarrow> confidence s = c)
      \<and> originalText s = ex_originalText ex)
   \<and> (bestOverlapMatch (extractedText ex) db = Some d
         \<or> bestOverlapMatch (extractedText ex) db = None \<and> exactNameMatch ex db = Some d
       \<longrightarrow> (\<exists>s. matchExtracted db newId ex i = Some s
              \<and> cpt s = def_cpt d \<and> name s = def_name d \<and> rvu s = def_rvu d))
   \<and> (s \<in> set (processExtracted db newId exs)
         \<longleftrightarrow> (\<exists>j<length exs. matchExtracted db newId (exs ! j) j = Some s))
   \<and> processExtracted db newId (map (\<lambda>ex. ex\<lparr>ex_cpt := c\<rparr>) exs) = processExtracted db newId exs"
proof (intro conjI)
  show "matchExtracted db newId ex i = Some s \<longrightarrow>
      (\<exists>d\<in>set db.
          (bestOverlapMatch (extractedText ex) db = Some d
             \<or> bestOverlapMatch (extractedText ex) db = None \<and> exactNameMatch ex db = Some d)
          \<and> cpt s = def_cpt d \<and> name s = def_name d \<and> rvu s = def_rvu d)
      \<and> study_id s = newId i
      \<and> (ex_quantity ex = None \<or> ex_quantity ex = Some 0 \<longrightarrow> quantity s = 1)
      \<and> (\<forall>q. ex_quantity ex = Some q \<and> q \<noteq> 0 \<longrightarrow> quantity s = q)
      \<and> (ex_confidence ex = None \<longrightarrow> confidence s = 0)
      \<and> (\<forall>c. ex_confidence ex = Some c \<longrightarrow> confidence s = c)
      \<and> originalText s = ex_originalText ex"
    using matchExtracted_accepted by blast
next
  show "bestOverlapMatch (extractedText ex) db = Some d
         \<or> bestOverlapMatch (extractedText ex) db = None \<and> exactNameMatch ex db = Some d
       \<longrightarrow> (\<exists>s. matchExtracted db newId ex i = Some s
              \<and> cpt s = def_cpt d \<and> name s = def_name d \<and> rvu s = def_rvu d)"
    using accepted_matchExtracted by blast
next
  show "s \<in> set (processExtracted db newId exs)
         \<longleftrightarrow> (\<exists>j<length exs. matchExtracted db newId (exs ! j) j = Some s)"
    by (rule processExtracted_iff)
next
  have "map (\<lambda>(index, ex). matchExtracted db newId ex index)
          (enumerate 0 (map (\<lambda>ex. ex\<lparr>ex_cpt := c\<rparr>) exs))
        = map (\<lambda>(index, ex). matchExtracted db newId ex index) (enumerate 0 exs)"
    by (simp add: enumerate_map_arg matchExtracted_ignores_cpt)
  then show "processExtracted db newId (map (\<lambda>ex. ex\<lparr>ex_cpt := c\<rparr>) exs)
      = processExtracted db newId exs"
    by (simp add: processExtracted_def)
qed

theorem matched_study_fields_witness:
  "matchExtracted
     [\<lparr>def_cpt = ''70450'', def_name = ''CT Head without contrast'', def_rvu = 1,
        def_category = CT\<rparr>,
      \<lparr>def_cpt = ''72148'', def_name = ''MRI Lumbar Spine'', def_rvu = 2, def_category = MRI\<rparr>]
     (\<lambda>i. if i = 0 then ''first'' else ''second'')
     \<lparr>ex_cpt = ''99999'', ex_name = ''Lumbar MRI'', ex_quantity = None,
       ex_originalText = Some ''MR Lumb Spine'', ex_confidence = None\<rparr> 0
     = Some \<lparr>study_id = ''first'', cpt = ''72148'', name = ''MRI Lumbar Spine'', rvu = 2,
        quantity = 1, confidence = 0, originalText = Some ''MR Lumb Spine''\<rparr>
   \<and> bestOverlapMatch ''MR Lumb Spine''
     [\<lparr>def_cpt = ''70450'', def_name = ''CT Head without contrast'', def_rvu = 1,
        def_category = CT\<rparr>,
      \<lparr>def_cpt = ''72148'', def_name = ''MRI Lumbar Spine'', def_rvu = 2, def_category = MRI\<rparr>]
     = Some \<lparr>def_cpt = ''72148'', def_name = ''MRI Lumbar Spine'', def_rvu = 2,
         def_category = MRI\<rparr>
   \<and> processExtracted
     [\<lparr>def_cpt = ''70450'', def_name = ''CT Head without contrast'', def_rvu = 1,
        def_category = CT\<rparr>,
      \<lparr>def_cpt = ''72148'', def_name = ''MRI Lumbar Spine'', def_rvu = 2, def_category = MRI\<rparr>]
     (\<lambda>i. if i = 0 then ''first'' else ''second'')
     [\<lparr>ex_cpt = ''99999'', ex_name = ''Lumbar MRI'', ex_quantity = None,
        ex_originalText = Some ''MR Lumb Spine'', ex_confidence = None\<rparr>,
      \<lparr>ex_cpt = ''99999'', ex_name = ''Head CT'', ex_quantity = Some 5,
        ex_originalText = Some ''CT Head W/O Contrast'', ex_confidence = Some 1\<rparr>]
   = [\<lparr>study_id = ''first'', cpt = ''72148'', name = ''MRI Lumbar Spine'', rvu = 2,
        quantity = 1, confidence = 0, originalText = Some ''MR Lumb Spine''\<rparr>,
      \<lparr>study_id = ''second'', cpt = ''70450'', name = ''CT Head without contrast'', rvu = 1,
        quantity = 5, confidence = 1, originalText = Some ''CT Head W/O Contrast''\<rparr>]"
  using matched_study_fields
    [where db = "[\<lparr>def_cpt = ''70450'', def_name = ''CT Head without contrast'', def_rvu = 1,
                    def_category = CT\<rparr>,
                  \<lparr>def_cpt = ''72148'', def_name = ''MRI Lumbar Spine'', def_rvu = 2,
                    def_category = MRI\<rparr>]"
       and newId = "\<lambda>i. if i = 0 then ''first'' else ''second''"
       and ex = "\<lparr>ex_cpt = ''99999'', ex_name = ''Lumbar MRI'', ex_quantity = None,
                  ex_originalText = Some ''MR Lumb Spine'', ex_confidence = None\<rparr>"
       and i = 0
       and d = "\<lparr>def_cpt = ''72148'', def_name = ''MRI Lumbar Spine'', def_rvu = 2,
                  def_category = MRI\<rparr>"
       and s = "\<lparr>study_id = ''first'', cpt = ''72148'', name = ''MRI Lumbar Spine'', rvu = 2,
                  quantity = 1, confidence = 0, originalText = Some ''MR Lumb Spine''\<rparr>"
       and exs = "[\<lparr>ex_cpt = ''99999'', ex_name = ''Lumbar MRI'', ex_quantity = None,
                    ex_originalText = Some ''MR Lumb Spine'', ex_confidence = None\<rparr>,
                  \<lparr>ex_cpt = ''99999'', ex_name = ''Head CT'', ex_quantity = Some 5,
                    ex_originalText = Some ''CT Head W/O Contrast'', ex_confidence = Some 1\<rparr>]"]
  by (simp add: processed_two_items matchExtracted_def extractedText_def best_mr_lumb_spine)

section \<open>The exact-name fallback\<close>

lemma no_candidate_None:
  assumes "\<forall>d\<in>set db. calculateWordOverlap etext (def_name d)
              < min 4 (length (getSignificantWords (def_name d)))"
  shows "bestOverlapMatch etext db = None"
proof (cases "bestOverlapMatch etext db")
  case (Some d)
  from bestOverlapMatch_Some [OF Some] assms show ?thesis by auto
qed simp

lemma gsw_ct_head_neck:
  "getSignificantWords ''CT Head Neck'' = [Word ''ct'', Word ''head'', Word ''neck'']"
  by code_simp
lemma gsw_ctheadneck: "getSignificantWords ''CTHeadNeck'' = [Word ''ctheadneck'']"
  by code_simp
lemma gsw_bone_scan: "getSignificantWords ''Bone scan'' = [Word ''bone'', Word ''scan'']"
  by code_simp
lemma strip_ct_head_neck: "strip_alnum ''CT Head Neck'' = ''ctheadneck''"
  by code_simp
lemma strip_ctheadneck: "strip_alnum ''CTHeadNeck'' = ''ctheadneck''"
  by code_simp
lemma strip_bone_scan: "strip_alnum ''Bone scan'' = ''bonescan''"
  by code_simp

text \<open>
  Claim C8. When no catalog entry reaches its overlap threshold for an extracted item, the
  item is matched to a catalog entry whose stripped lowercase alphanumeric name equals the
  item's stripped name, if there is one; if there is none, the item gives no study, its
  batch adds nothing to the study list, and the error message stays cleared.
\<close>

theorem exact_name_fallback:
  assumes "\<forall>d\<in>set db. calculateWordOverlap (extractedText ex) (def_name d)
              < min 4 (length (getSignificantWords (def_name d)))"
  shows "((\<exists>d\<in>set db. strip_alnum (def_name d) = strip_alnum (ex_name ex)) \<longrightarrow>
            (\<exists>d s. matchExtracted db newId ex i = Some s
               \<and> d \<in> set db \<and> strip_alnum (def_name d) = strip_alnum (ex_name ex)
               \<and> cpt s = def_cpt d \<and> name s = def_name d \<and> rvu s = def_rvu d))
       \<and> ((\<forall>d\<in>set db. strip_alnum (def_name d) \<noteq> strip_alnum (ex_name ex)) \<longrightarrow>
            matchExtracted db newId ex i = None
            \<and> processExtracted db newId [ex] = []
            \<and> processFile db newId (Inr [ex]) st = st\<lparr>error := None\<rparr>)"
proof (intro conjI impI)
  assume "\<exists>d\<in>set db. strip_alnum (def_name d) = strip_alnum (ex_name ex)"
  then obtain d where d: "exactNameMatch ex db = Some d"
    by (cases "exactNameMatch ex db") (auto simp: exactNameMatch_def find_None_iff)
  then have "d \<in> set db \<and> strip_alnum (def_name d) = strip_alnum (ex_name ex)"
    by (auto simp: exactNameMatch_def find_Some_iff)
  then show "\<exists>d s. matchExtracted db newId ex i = Some s
               \<and> d \<in> set db \<and> strip_alnum (def_name d) = strip_alnum (ex_name ex)
               \<and> cpt s = def_cpt d \<and> name s = def_name d \<and> rvu s = def_rvu d"
    using d no_candidate_None [OF assms]
    by (intro exI [of _ d]) (simp add: matchExtracted_def)
next
  assume a: "\<forall>d\<in>set db. strip_alnum (def_name d) \<noteq> strip_alnum (ex_name ex)"
  then have "exactNameMatch ex db = None"
    by (auto simp: exactNameMatch_def find_None_iff)
  then have m: "\<And>j. matchExtracted db newId ex j = None"
    using no_candidate_None [OF assms] by (simp add: matchExtracted_def)
  show "matchExtracted db newId ex i = None" by (rule m)
  show p: "processExtracted db newId [ex] = []"
    by (simp add: processExtracted_def m)
  show "processFile db newId (Inr [ex]) st = st\<lparr>error := None\<rparr>"
    by (simp add: processFile_def p)
qed

theorem exact_name_fallback_witness:
  "(\<exists>d s. matchExtracted
        [\<lparr>def_cpt = ''70490'', def_name = ''CT Head Neck'', def_rvu = 1.28, def_category = CT\<rparr>]
        (\<lambda>i. ''id'')
        \<lparr>ex_cpt = ''70490'', ex_name = ''CTHeadNeck'', ex_quantity = Some 1,
          ex_originalText = None, ex_confidence = Some 0.5\<rparr> 0 = Some s
      \<and> d \<in> set [\<lparr>def_cpt = ''70490'', def_name = ''CT Head Neck'', def_rvu = 1.28,
                    def_category = CT\<rparr>]
      \<and> strip_alnum (def_name d) = strip_alnum ''CTHeadNeck''
      \<and> cpt s = def_cpt d \<and> name s = def_name d \<and> rvu s = def_rvu d)
   \<and> matchExtracted
        [\<lparr>def_cpt = ''70490'', def_name = ''CT Head Neck'', def_rvu = 1.28, def_category = CT\<rparr>]
        (\<lambda>i. ''id'')
        \<lparr>ex_cpt = ''78306'', ex_name = ''Bone scan'', ex_quantity = Some 1,
          ex_originalText = None, ex_confidence = Some 0.5\<rparr> 0 = None"
  using
    exact_name_fallback
      [where db = "[\<lparr>def_cpt = ''70490'', def_name = ''CT Head Neck'', def_rvu = 1.28,
                     def_category = CT\<rparr>]"
         and ex = "\<lparr>ex_cpt = ''70490'', ex_name = ''CTHeadNeck'', ex_quantity = Some 1,
                    ex_originalText = None, ex_confidence = Some 0.5\<rparr>"
         and newId = "\<lambda>i. ''id''" and i = 0]
    exact_name_fallback
      [where db = "[\<lparr>def_cpt = ''70490'', def_name = ''CT Head Neck'', def_rvu = 1.28,
                     def_category = CT\<rparr>]"
         and ex = "\<lparr>ex_cpt = ''78306'', ex_name = ''Bone scan'', ex_quantity = Some 1,
                    ex_originalText = None, ex_confidence = Some 0.5\<rparr>"
         and newId = "\<lambda>i. ''id''" and i = 0]
  by (simp add: extractedText_def calculateWordOverlap_filter gsw_ct_head_neck gsw_ctheadneck
        gsw_bone_scan strip_ct_head_neck strip_ctheadneck strip_bone_scan)

section \<open>Rounded addition is exact on small integers\<close>

lemma round_half_even_of_int: "round_half_even (of_int m) = m"
  by (simp add: round_half_even_def)

lemma halvings_lower: "1 \<le> a \<Longrightarrow> 2 ^ halvings n a \<le> a"
proof (induction n a rule: halvings.induct)
  case (1 n a)
  show ?case
  proof (cases "n = 0 \<or> a < 2")
    case True
    then have "halvings n a = 0" by simp
    with "1.prems" show ?thesis by simp
  next
    case False
    then have h: "halvings n a = 1 + halvings (n - 1) (a / 2)" by simp
    from False have "1 \<le> a / 2" by simp
    with "1.IH" False have "2 ^ halvings (n - 1) (a / 2) \<le> a / 2" by blast
    then show ?thesis unfolding h by simp
  qed
qed

lemma round_double_nat:
  assumes "real n \<le> 2 ^ 53"
  shows "round_double (real n) = real n"
proof (cases "n = 0")
  case True
  then show ?thesis by (simp add: round_double_def)
next
  case False
  then have one: "1 \<le> real n" by simp
  define k where "k = halvings 1023 (real n)"
  have low: "(2::real) ^ k \<le> real n"
    unfolding k_def using one by (rule halvings_lower)
  from low assms have "(2::real) ^ k \<le> 2 ^ 53" by (rule order_trans)
  then have k53: "k \<le> 53" by (rule power_le_imp_le_exp [rotated]) simp
  have e: "binary_exponent (real n) = int k"
    using one by (simp add: binary_exponent_def k_def)
  have r: "round_double (real n)
      = of_int (round_half_even (real n / pow2 (int k - 52))) * pow2 (int k - 52)"
    using False by (simp add: round_double_def e Let_def)
  show ?thesis
  proof (cases "k \<le> 52")
    case True
    then have u: "pow2 (int k - 52) = 1 / 2 ^ (52 - k)"
      by (simp add: pow2_def nat_diff_distrib')
    have "real n / (1 / 2 ^ (52 - k)) = of_int (int n * 2 ^ (52 - k))"
      by simp
    then have "round_half_even (real n / (1 / 2 ^ (52 - k))) = int n * 2 ^ (52 - k)"
      by (simp only: round_half_even_of_int)
    then show ?thesis
      unfolding r u by simp
  next
    case False
    with k53 have k: "k = 53" by simp
    from low assms have n: "real n = 2 ^ 53" unfolding k by (rule antisym [rotated])
    have u: "pow2 (int k - 52) = 2"
      by (simp add: pow2_def k)
    have "real n / 2 = of_int (2 ^ 52)"
      unfolding n by simp
    then have "round_half_even (real n / 2) = 2 ^ 52"
      by (simp only: round_half_even_of_int)
    then show ?thesis
      unfolding r u by (simp add: n)
  qed
qed

lemma js_add_nat:
  assumes "real a + real b \<le> 2 ^ 53"
  shows "js_add (real a) (real b) = real a + real b"
proof -
  have "round_double (real (a + b)) = real (a + b)"
    using assms by (intro round_double_nat) simp
  then show ?thesis by (simp add: js_add_def)
qed

lemma foldl_js_add_exact:
  assumes "q0 \<in> \<nat>" "\<forall>q\<in>set qs. q \<in> \<nat>" "q0 + sum_list qs \<le> 2 ^ 53"
  shows "foldl js_add q0 qs = q0 + sum_list qs"
  using assms
proof (induction qs arbitrary: q0)
  case Nil
  then show ?case by simp
next
  case (Cons q qs)
  from Cons.prems obtain a b where ab: "q0 = real a" "q = real b"
    by (auto elim!: Nats_cases)
  have nonneg: "0 \<le> sum_list qs"
    using Cons.prems(2) by (intro sum_list_nonneg) (auto elim!: Nats_cases)
  with Cons.prems(3) ab have "real a + real b \<le> 2 ^ 53" by simp
  then have s: "js_add q0 q = q0 + q"
    unfolding ab by (rule js_add_nat)
  have "foldl js_add (q0 + q) qs = (q0 + q) + sum_list qs"
    using Cons.prems by (intro Cons.IH) (auto simp: add.assoc)
  then show ?case by (simp add: s add.assoc)
qed

lemma js_add_1_1: "js_add 1 1 = 2"
  using js_add_nat [of 1 1] by simp

lemma js_add_2_1: "js_add 2 1 = 3"
  using js_add_nat [of 2 1] by simp

lemma js_add_1_2: "js_add 1 2 = 3"
  using js_add_nat [of 1 2] by simp

lemma js_add_big_1: "js_add 10000000000000000 1 = 10000000000000000"
  by code_simp

lemma js_add_2_big: "js_add 2 10000000000000000 = 10000000000000002"
  by code_simp

section \<open>Grouping\<close>

lemma map_of_map_set:
  "map_of (map_set k v m) k' = (if k' = k then Some v else map_of m k')"
  by (induction m) auto

lemma keys_map_set:
  "map fst (map_set k v m) = (if k \<in> set (map fst m) then map fst m else map fst m @ [k])"
  by (induction m) auto

lemma set_map_set: "set (map_set k v m) \<subseteq> insert (k, v) (set m)"
  by (induction m) auto

lemma groupStep_lookup:
  "map_of (groupStep m s) k =
     (if k = groupKey s then
        (case map_of m k of
           None \<Rightarrow> Some s
         | Some e \<Rightarrow> Some (e\<lparr>quantity := js_add (quantity e) (quantity s),
                             confidence := max (confidence e) (confidence s),
                             originalText := None\<rparr>))
      else map_of m k)"
  by (simp add: groupStep_def Let_def map_of_map_set split: option.splits)

lemma groupStep_keys:
  "map fst (groupStep m s) =
     (if groupKey s \<in> set (map fst m) then map fst m else map fst m @ [groupKey s])"
  by (simp add: groupStep_def Let_def keys_map_set split: option.splits)

lemma groupStep_key_inv:
  assumes "\<forall>(k, g) \<in> set m. groupKey g = k"
  shows "\<forall>(k, g) \<in> set (groupStep m s). groupKey g = k"
proof (cases "map_of m (groupKey s)")
  case None
  then have "set (groupStep m s) \<subseteq> insert (groupKey s, s) (set m)"
    by (simp add: groupStep_def Let_def set_map_set)
  with assms show ?thesis by auto
next
  case (Some e)
  then have "(groupKey s, e) \<in> set m" by (rule map_of_SomeD)
  with assms have "groupKey e = groupKey s" by auto
  then have "groupKey (e\<lparr>quantity := js_add (quantity e) (quantity s),
                          confidence := max (confidence e) (confidence s),
                          originalText := None\<rparr>) = groupKey s"
    by (simp add: groupKey_def)
  moreover have "set (groupStep m s)
      \<subseteq> insert (groupKey s, e\<lparr>quantity := js_add (quantity e) (quantity s),
                          confidence := max (confidence e) (confidence s),
                          originalText := None\<rparr>) (set m)"
    using Some by (simp add: groupStep_def Let_def set_map_set)
  ultimately show ?thesis using assms by auto
qed

lemma fold_key_inv:
  assumes "\<forall>(k, g) \<in> set m. groupKey g = k"
  shows "\<forall>(k, g) \<in> set (foldl groupStep m sts). groupKey g = k"
  using assms
proof (induction sts arbitrary: m)
  case Nil
  then show ?case by simp
next
  case (Cons x sts)
  from Cons.IH [OF groupStep_key_inv [OF Cons.prems]] show ?case by simp
qed

lemma fold_keys_distinct:
  "distinct (map fst m) \<Longrightarrow> distinct (map fst (foldl groupStep m sts))"
  by (induction sts arbitrary: m) (simp_all add: groupStep_keys)

lemma groupStep_key_set:
  "fst ` set (groupStep m s) = insert (groupKey s) (fst ` set m)"
proof -
  have "set (map fst (groupStep m s)) = insert (groupKey s) (set (map fst m))"
    unfolding groupStep_keys by auto
  then show ?thesis by simp
qed

lemma fold_keys_set:
  "fst ` set (foldl groupStep m sts) = fst ` set m \<union> groupKey ` set sts"
  by (induction sts arbitrary: m) (simp_all add: groupStep_key_set)

lemma Max_insert_max:
  fixes a b :: real
  assumes "finite S"
  shows "Max (insert (max a b) S) = Max (insert a (insert b S))"
  using assms by (cases "S = {}") (simp_all add: max.assoc)

lemma fold_lookup_Some:
  assumes "map_of m k = Some e"
  shows "\<exists>g. map_of (foldl groupStep m sts) k = Some g
           \<and> quantity g = foldl js_add (quantity e) (map quantity (filter (\<lambda>s. groupKey s = k) sts))
           \<and> confidence g
               = Max (insert (confidence e) (confidence ` set (filter (\<lambda>s. groupKey s = k) sts)))
           \<and> study_id g = study_id e \<and> cpt g = cpt e \<and> name g = name e \<and> rvu g = rvu e
           \<and> originalText g
               = (if filter (\<lambda>s. groupKey s = k) sts = [] then originalText e else None)"
  using assms
proof (induction sts arbitrary: m e)
  case Nil
  then show ?case by simp
next
  case (Cons x sts)
  show ?case
  proof (cases "groupKey x = k")
    case True
    let ?e = "e\<lparr>quantity := js_add (quantity e) (quantity x),
                 confidence := max (confidence e) (confidence x),
                 originalText := None\<rparr>"
    have "map_of (groupStep m x) k = Some ?e"
      using True Cons.prems by (simp add: groupStep_lookup)
    from Cons.IH [OF this] obtain g where g:
      "map_of (foldl groupStep (groupStep m x) sts) k = Some g"
      "quantity g = foldl js_add (quantity ?e) (map quantity (filter (\<lambda>s. groupKey s = k) sts))"
      "confidence g
         = Max (insert (confidence ?e) (confidence ` set (filter (\<lambda>s. groupKey s = k) sts)))"
      "study_id g = study_id ?e" "cpt g = cpt ?e" "name g = name ?e" "rvu g = rvu ?e"
      "originalText g
         = (if filter (\<lambda>s. groupKey s = k) sts = [] then originalText ?e else None)"
      by blast
    have "confidence g
        = Max (insert (confidence e)
                 (insert (confidence x) (confidence ` set (filter (\<lambda>s. groupKey s = k) sts))))"
      using g(3) by (simp add: Max_insert_max)
    with g True show ?thesis
      by (intro exI [of _ g]) simp
  next
    case False
    then have n: "map_of (groupStep m x) k = Some e"
      using Cons.prems by (auto simp: groupStep_lookup)
    have f: "filter (\<lambda>s. groupKey s = k) (x # sts) = filter (\<lambda>s. groupKey s = k) sts"
      using False by simp
    show ?thesis
      unfolding f foldl_Cons by (rule Cons.IH [OF n])
  qed
qed

lemma fold_lookup_None:
  assumes "map_of m k = None"
  shows "(filter (\<lambda>s. groupKey s = k) sts = [] \<longrightarrow> map_of (foldl groupStep m sts) k = None)
       \<and> (filter (\<lambda>s. groupKey s = k) sts \<noteq> [] \<longrightarrow>
           (\<exists>g. map_of (foldl groupStep m sts) k = Some g
              \<and> quantity g = foldl js_add (quantity (hd (filter (\<lambda>s. groupKey s = k) sts)))
                               (map quantity (tl (filter (\<lambda>s. groupKey s = k) sts)))
              \<and> confidence g = Max (confidence ` set (filter (\<lambda>s. groupKey s = k) sts))
              \<and> study_id g = study_id (hd (filter (\<lambda>s. groupKey s = k) sts))
              \<and> cpt g = cpt (hd (filter (\<lambda>s. groupKey s = k) sts))
              \<and> name g = name (hd (filter (\<lambda>s. groupKey s = k) sts))
              \<and> rvu g = rvu (hd (filter (\<lambda>s. groupKey s = k) sts))
              \<and> originalText g
                  = (if length (filter (\<lambda>s. groupKey s = k) sts) = 1
                     then originalText (hd (filter (\<lambda>s. groupKey s = k) sts)) else None)))"
  using assms
proof (induction sts arbitrary: m)
  case Nil
  then show ?case by simp
next
  case (Cons x sts)
  show ?case
  proof (cases "groupKey x = k")
    case True
    have "map_of (groupStep m x) k = Some x"
      using True Cons.prems by (simp add: groupStep_lookup)
    from fold_lookup_Some [OF this, of sts] obtain g where g:
      "map_of (foldl groupStep (groupStep m x) sts) k = Some g"
      "quantity g = foldl js_add (quantity x) (map quantity (filter (\<lambda>s. groupKey s = k) sts))"
      "confidence g
         = Max (insert (confidence x) (confidence ` set (filter (\<lambda>s. groupKey s = k) sts)))"
      "study_id g = study_id x" "cpt g = cpt x" "name g = name x" "rvu g = rvu x"
      "originalText g
         = (if filter (\<lambda>s. groupKey s = k) sts = [] then originalText x else None)"
      by blast
    have f: "filter (\<lambda>s. groupKey s = k) (x # sts) = x # filter (\<lambda>s. groupKey s = k) sts"
      using True by simp
    show ?thesis
      unfolding f using g by (intro conjI impI exI [of _ g]) simp_all
  next
    case False
    then have n: "map_of (groupStep m x) k = None"
      using Cons.prems by (auto simp: groupStep_lookup)
    have f: "filter (\<lambda>s. groupKey s = k) (x # sts) = filter (\<lambda>s. groupKey s = k) sts"
      using False by simp
    show ?thesis
      unfolding f foldl_Cons by (rule Cons.IH [OF n])
  qed
qed

lemma find_key_lookup:
  assumes "\<forall>(k, g) \<in> set m. groupKey g = k"
  shows "find (\<lambda>g. groupKey g = k) (map snd m) = map_of m k"
  using assms by (induction m) auto

lemma grouped_find:
  "find (\<lambda>g. groupKey g = k) (displayStudies True sts) = map_of (foldl groupStep [] sts) k"
proof -
  have "\<forall>(k, g) \<in> set (foldl groupStep [] sts). groupKey g = k"
    by (rule fold_key_inv) simp
  then show ?thesis
    by (simp add: displayStudies_def find_key_lookup)
qed

lemma grouped_row_of_key:
  "(filter (\<lambda>s. groupKey s = k) sts = [] \<longrightarrow>
       find (\<lambda>g. groupKey g = k) (displayStudies True sts) = None)
   \<and> (filter (\<lambda>s. groupKey s = k) sts \<noteq> [] \<longrightarrow>
       (\<exists>g. find (\<lambda>g. groupKey g = k) (displayStudies True sts) = Some g
          \<and> quantity g = foldl js_add (quantity (hd (filter (\<lambda>s. groupKey s = k) sts)))
                               (map quantity (tl (filter (\<lambda>s. groupKey s = k) sts)))
          \<and> confidence g = Max (confidence ` set (filter (\<lambda>s. groupKey s = k) sts))
          \<and> study_id g = study_id (hd (filter (\<lambda>s. groupKey s = k) sts))
          \<and> cpt g = cpt (hd (filter (\<lambda>s. groupKey s = k) sts))
          \<and> name g = name (hd (filter (\<lambda>s. groupKey s = k) sts))
          \<and> rvu g = rvu (hd (filter (\<lambda>s. groupKey s = k) sts))
          \<and> originalText g
              = (if length (filter (\<lambda>s. groupKey s = k) sts) = 1
                 then originalText (hd (filter (\<lambda>s. groupKey s = k) sts)) else None)))"
  unfolding grouped_find by (rule fold_lookup_None) simp

lemma grouped_mem_find:
  assumes "g \<in> set (displayStudies True sts)"
  shows "find (\<lambda>h. groupKey h = groupKey g) (displayStudies True sts) = Some g"
proof -
  have inv: "\<forall>(k, h) \<in> set (foldl groupStep [] sts). groupKey h = k"
    by (rule fold_key_inv) simp
  have dist: "distinct (map fst (foldl groupStep [] sts))"
    by (rule fold_keys_distinct) simp
  from assms obtain k where k: "(k, g) \<in> set (foldl groupStep [] sts)"
    by (auto simp: displayStudies_def)
  with inv have "k = groupKey g" by auto
  with k dist have "map_of (foldl groupStep [] sts) (groupKey g) = Some g"
    by simp
  then show ?thesis by (simp add: grouped_find)
qed

lemma grouped_keys:
  "map groupKey (displayStudies True sts) = map fst (foldl groupStep [] sts)"
proof -
  have "\<forall>(k, h) \<in> set (foldl groupStep [] sts). groupKey h = k"
    by (rule fold_key_inv) simp
  then show ?thesis
    by (auto simp: displayStudies_def)
qed

lemma three_identical_rows:
  assumes "cpt b = cpt a" "name b = name a" "cpt c = cpt a" "name c = name a"
    and "quantity a = 1" "quantity b = 1" "quantity c = 1"
  shows "displayStudies True [a, b, c]
           = [a\<lparr>quantity := 3,
                confidence := max (max (confidence a) (confidence b)) (confidence c),
                originalText := None\<rparr>]"
  using assms by (simp add: displayStudies_def groupStep_def groupKey_def js_add_1_1 js_add_2_1)

lemma rows_sum_exact:
  assumes "rows \<noteq> []" "\<forall>s\<in>set rows. quantity s \<in> \<nat>"
    and "sum_list (map quantity rows) \<le> 2 ^ 53"
  shows "foldl js_add (quantity (hd rows)) (map quantity (tl rows)) = sum_list (map quantity rows)"
proof -
  from assms(1) obtain r rest where rows: "rows = r # rest"
    by (cases rows) auto
  have "foldl js_add (quantity r) (map quantity rest) = quantity r + sum_list (map quantity rest)"
    using assms(2,3) unfolding rows by (intro foldl_js_add_exact) auto
  then show ?thesis by (simp add: rows)
qed

text \<open>
  Claim C6, as stated, fails: the original text is not discarded in every group row. A
  key that occurs once gives a group row that is a copy of its only row, original text
  included.
\<close>

theorem single_row_keeps_originalText:
  "displayStudies True
     [\<lparr>study_id = ''a'', cpt = ''70450'', name = ''CT Head without contrast'', rvu = 1,
        quantity = 1, confidence = 1, originalText = Some ''CT HEAD W/O''\<rparr>]
   = [\<lparr>study_id = ''a'', cpt = ''70450'', name = ''CT Head without contrast'', rvu = 1,
        quantity = 1, confidence = 1, originalText = Some ''CT HEAD W/O''\<rparr>]"
  by (simp add: displayStudies_def groupStep_def groupKey_def)

text \<open>
  Claim C6, amended. In grouped display mode there is one row for each code+name key
  (the string \<^verbatim>\<open>cpt-name\<close>) of the study list. The row carries the identifier, code, name
  and RVU weight of the first study with that key. Its quantity is the sum of the
  quantities of the studies with that key, added in list order with the addition of
  doubles, which is their exact sum when the quantities are non-negative integers of sum
  at most \<open>2\<^sup>5\<^sup>3\<close>; its confidence is the maximum of their confidences. Its original text
  is discarded when the row merges two or more studies, while the row of a key that
  occurs once keeps the original text of its study. Three studies with the same code and
  name and quantity 1 each give one row with quantity 3, the maximum of the three
  confidences, and no original text.
\<close>

theorem grouped_rows:
  "(g \<in> set (displayStudies True sts) \<longrightarrow>
      filter (\<lambda>s. groupKey s = groupKey g) sts \<noteq> []
      \<and> study_id g = study_id (hd (filter (\<lambda>s. groupKey s = groupKey g) sts))
      \<and> cpt g = cpt (hd (filter (\<lambda>s. groupKey s = groupKey g) sts))
      \<and> name g = name (hd (filter (\<lambda>s. groupKey s = groupKey g) sts))
      \<and> rvu g = rvu (hd (filter (\<lambda>s. groupKey s = groupKey g) sts))
      \<and> quantity g = foldl js_add (quantity (hd (filter (\<lambda>s. groupKey s = groupKey g) sts)))
                        (map quantity (tl (filter (\<lambda>s. groupKey s = groupKey g) sts)))
      \<and> ((\<forall>s\<in>set (filter (\<lambda>s. groupKey s = groupKey g) sts). quantity s \<in> \<nat>)
           \<and> sum_list (map quantity (filter (\<lambda>s. groupKey s = groupKey g) sts)) \<le> 2 ^ 53
         \<longrightarrow> quantity g = sum_list (map quantity (filter (\<lambda>s. groupKey s = groupKey g) sts)))
      \<and> confidence g = Max (confidence ` set (filter (\<lambda>s. groupKey s = groupKey g) sts))
      \<and> originalText g
          = (if length (filter (\<lambda>s. groupKey s = groupKey g) sts) = 1
             then originalText (hd (filter (\<lambda>s. groupKey s = groupKey g) sts)) else None))
   \<and> distinct (map groupKey (displayStudies True sts))
   \<and> groupKey ` set (displayStudies True sts) = groupKey ` set sts
   \<and> (cpt b = cpt a \<and> name b = name a \<and> cpt c = cpt a \<and> name c = name a
        \<and> quantity a = 1 \<and> quantity b = 1 \<and> quantity c = 1 \<longrightarrow>
      displayStudies True [a, b, c]
        = [a\<lparr>quantity := 3,
             confidence := max (max (confidence a) (confidence b)) (confidence c),
             originalText := None\<rparr>])"
proof (intro conjI impI)
  assume mem: "g \<in> set (displayStudies True sts)"
  let ?rows = "filter (\<lambda>s. groupKey s = groupKey g) sts"
  have found: "find (\<lambda>h. groupKey h = groupKey g) (displayStudies True sts) = Some g"
    using mem by (rule grouped_mem_find)
  show ne: "?rows \<noteq> []"
    using found grouped_row_of_key [of "groupKey g" sts] by auto
  from ne found grouped_row_of_key [of "groupKey g" sts]
  have fields: "quantity g = foldl js_add (quantity (hd ?rows)) (map quantity (tl ?rows))
      \<and> confidence g = Max (confidence ` set ?rows)
      \<and> study_id g = study_id (hd ?rows) \<and> cpt g = cpt (hd ?rows)
      \<and> name g = name (hd ?rows) \<and> rvu g = rvu (hd ?rows)
      \<and> originalText g = (if length ?rows = 1 then originalText (hd ?rows) else None)"
    by auto
  from fields show "study_id g = study_id (hd ?rows)" by simp
  from fields show "cpt g = cpt (hd ?rows)" by simp
  from fields show "name g = name (hd ?rows)" by simp
  from fields show "rvu g = rvu (hd ?rows)" by simp
  from fields show q: "quantity g = foldl js_add (quantity (hd ?rows)) (map quantity (tl ?rows))"
    by simp
  from fields show "confidence g = Max (confidence ` set ?rows)" by simp
  from fields show "originalText g
      = (if length ?rows = 1 then originalText (hd ?rows) else None)" by simp
  assume "(\<forall>s\<in>set ?rows. quantity s \<in> \<nat>) \<and> sum_list (map quantity ?rows) \<le> 2 ^ 53"
  then show "quantity g = sum_list (map quantity ?rows)"
    unfolding q using ne by (intro rows_sum_exact) simp_all
next
  show "distinct (map groupKey (displayStudies True sts))"
    unfolding grouped_keys by (rule fold_keys_distinct) simp
next
  have "groupKey ` set (displayStudies True sts) = set (map groupKey (displayStudies True sts))"
    by simp
  also have "\<dots> = fst ` set (foldl groupStep [] sts)"
    unfolding grouped_keys by simp
  also have "\<dots> = groupKey ` set sts"
    by (simp add: fold_keys_set)
  finally show "groupKey ` set (displayStudies True sts) = groupKey ` set sts" .
next
  assume "cpt b = cpt a \<and> name b = name a \<and> cpt c = cpt a \<and> name c = name a
        \<and> quantity a = 1 \<and> quantity b = 1 \<and> quantity c = 1"
  then show "displayStudies True [a, b, c]
        = [a\<lparr>quantity := 3,
             confidence := max (max (confidence a) (confidence b)) (confidence c),
             originalText := None\<rparr>]"
    by (intro three_identical_rows) simp_all
qed

theorem grouped_rows_witness:
  "displayStudies True
     [\<lparr>study_id = ''a'', cpt = ''70450'', name = ''CT Head'', rvu = 1, quantity = 1,
        confidence = 1 / 2, originalText = Some ''ct head''\<rparr>,
      \<lparr>study_id = ''b'', cpt = ''70450'', name = ''CT Head'', rvu = 1, quantity = 1,
        confidence = 1, originalText = Some ''CT HEAD''\<rparr>,
      \<lparr>study_id = ''c'', cpt = ''70450'', name = ''CT Head'', rvu = 1, quantity = 1,
        confidence = 3 / 4, originalText = None\<rparr>]
   = [\<lparr>study_id = ''a'', cpt = ''70450'', name = ''CT Head'', rvu = 1, quantity = 3,
        confidence = 1, originalText = None\<rparr>]
   \<and> \<lparr>study_id = ''a'', cpt = ''70450'', name = ''CT Head'', rvu = 1, quantity = 3,
        confidence = 1, originalText = None\<rparr>
     \<in> set (displayStudies True
         [\<lparr>study_id = ''a'', cpt = ''70450'', name = ''CT Head'', rvu = 1, quantity = 1,
            confidence = 1 / 2, originalText = Some ''ct head''\<rparr>,
          \<lparr>study_id = ''b'', cpt = ''70450'', name = ''CT Head'', rvu = 1, quantity = 1,
            confidence = 1, originalText = Some ''CT HEAD''\<rparr>,
          \<lparr>study_id = ''c'', cpt = ''70450'', name = ''CT Head'', rvu = 1, quantity = 1,
            confidence = 3 / 4, originalText = None\<rparr>])
   \<and> (1::real) \<in> \<nat> \<and> (1::real) + 1 + 1 \<le> 2 ^ 53"
  using grouped_rows
    [where a = "\<lparr>study_id = ''a'', cpt = ''70450'', name = ''CT Head'', rvu = 1, quantity = 1,
        confidence = 1 / 2, originalText = Some ''ct head''\<rparr>"
       and b = "\<lparr>study_id = ''b'', cpt = ''70450'', name = ''CT Head'', rvu = 1, quantity = 1,
        confidence = 1, originalText = Some ''CT HEAD''\<rparr>"
       and c = "\<lparr>study_id = ''c'', cpt = ''70450'', name = ''CT Head'', rvu = 1, quantity = 1,
        confidence = 3 / 4, originalText = None\<rparr>"
       and g = "\<lparr>study_id = ''a'', cpt = ''70450'', name = ''CT Head'', rvu = 1, quantity = 3,
        confidence = 1, originalText = None\<rparr>"
       and sts = "[\<lparr>study_id = ''a'', cpt = ''70450'', name = ''CT Head'', rvu = 1, quantity = 1,
            confidence = 1 / 2, originalText = Some ''ct head''\<rparr>,
          \<lparr>study_id = ''b'', cpt = ''70450'', name = ''CT Head'', rvu = 1, quantity = 1,
            confidence = 1, originalText = Some ''CT HEAD''\<rparr>,
          \<lparr>study_id = ''c'', cpt = ''70450'', name = ''CT Head'', rvu = 1, quantity = 1,
            confidence = 3 / 4, originalText = None\<rparr>]"]
  by simp

text \<open>
  Claim C4, as stated, fails: the aggregate quantity depends on the order of the list,
  because the addition of doubles is not associative. Three studies of one key with the
  quantities \<open>10\<^sup>1\<^sup>6\<close>, 1, 1 are grouped to the quantity \<open>10\<^sup>1\<^sup>6\<close> (each added 1 is rounded
  away), and in the order 1, 1, \<open>10\<^sup>1\<^sup>6\<close> to the quantity \<open>10\<^sup>1\<^sup>6 + 2\<close>.
\<close>

theorem grouping_order_dependent:
  "mset [\<lparr>study_id = ''a'', cpt = ''70450'', name = ''CT Head'', rvu = 1,
           quantity = 10000000000000000, confidence = 1, originalText = None\<rparr>,
         \<lparr>study_id = ''b'', cpt = ''70450'', name = ''CT Head'', rvu = 1, quantity = 1,
           confidence = 1, originalText = None\<rparr>,
         \<lparr>study_id = ''c'', cpt = ''70450'', name = ''CT Head'', rvu = 1, quantity = 1,
           confidence = 1, originalText = None\<rparr>]
     = mset [\<lparr>study_id = ''b'', cpt = ''70450'', name = ''CT Head'', rvu = 1, quantity = 1,
           confidence = 1, originalText = None\<rparr>,
         \<lparr>study_id = ''c'', cpt = ''70450'', name = ''CT Head'', rvu = 1, quantity = 1,
           confidence = 1, originalText = None\<rparr>,
         \<lparr>study_id = ''a'', cpt = ''70450'', name = ''CT Head'', rvu = 1,
           quantity = 10000000000000000, confidence = 1, originalText = None\<rparr>]
   \<and> map quantity (displayStudies True
        [\<lparr>study_id = ''a'', cpt = ''70450'', name = ''CT Head'', rvu = 1,
           quantity = 10000000000000000, confidence = 1, originalText = None\<rparr>,
         \<lparr>study_id = ''b'', cpt = ''70450'', name = ''CT Head'', rvu = 1, quantity = 1,
           confidence = 1, originalText = None\<rparr>,
         \<lparr>study_id = ''c'', cpt = ''70450'', name = ''CT Head'', rvu = 1, quantity = 1,
           confidence = 1, originalText = None\<rparr>])
     = [10000000000000000]
   \<and> map quantity (displayStudies True
        [\<lparr>study_id = ''b'', cpt = ''70450'', name = ''CT Head'', rvu = 1, quantity = 1,
           confidence = 1, originalText = None\<rparr>,
         \<lparr>study_id = ''c'', cpt = ''70450'', name = ''CT Head'', rvu = 1, quantity = 1,
           confidence = 1, originalText = None\<rparr>,
         \<lparr>study_id = ''a'', cpt = ''70450'', name = ''CT Head'', rvu = 1,
           quantity = 10000000000000000, confidence = 1, originalText = None\<rparr>])
     = [10000000000000002]"
  by (simp add: displayStudies_def groupStep_def groupKey_def js_add_big_1 js_add_1_1 js_add_2_big)

text \<open>
  Claim C4, amended. For a list of scanned studies and any permutation of it, and for
  each code+name key, either both groupings have no row for the key, or both have one,
  with the same confidence, the maximum of the confidences of the studies with that key;
  and when the quantities of the studies with that key are non-negative integers of sum
  at most \<open>2\<^sup>5\<^sup>3\<close>, so that every addition is exact, with the same quantity, the sum of
  their quantities.
\<close>

theorem grouping_order_independent:
  assumes "mset xs = mset ys"
  shows "(find (\<lambda>g. groupKey g = k) (displayStudies True xs) = None
            \<longleftrightarrow> find (\<lambda>g. groupKey g = k) (displayStudies True ys) = None)
       \<and> (\<forall>g h. find (\<lambda>g. groupKey g = k) (displayStudies True xs) = Some g
                \<and> find (\<lambda>g. groupKey g = k) (displayStudies True ys) = Some h
            \<longrightarrow> confidence g = confidence h
              \<and> confidence g = Max (confidence ` set (filter (\<lambda>s. groupKey s = k) xs))
              \<and> ((\<forall>s\<in>set (filter (\<lambda>s. groupKey s = k) xs). quantity s \<in> \<nat>)
                   \<and> sum_list (map quantity (filter (\<lambda>s. groupKey s = k) xs)) \<le> 2 ^ 53
                 \<longrightarrow> quantity g = quantity h
                   \<and> quantity g = sum_list (map quantity (filter (\<lambda>s. groupKey s = k) xs))))"
proof -
  let ?rx = "filter (\<lambda>s. groupKey s = k) xs"
  let ?ry = "filter (\<lambda>s. groupKey s = k) ys"
  have m: "mset ?rx = mset ?ry"
    using assms by simp
  then have s: "set ?rx = set ?ry"
    by (rule mset_eq_setD)
  have e: "?rx = [] \<longleftrightarrow> ?ry = []"
    using s by (metis set_empty)
  have "sum_mset (image_mset quantity (mset ?rx)) = sum_mset (image_mset quantity (mset ?ry))"
    using m by simp
  then have q: "sum_list (map quantity ?rx) = sum_list (map quantity ?ry)"
    by (simp only: mset_map [symmetric] sum_mset_sum_list)
  have none: "find (\<lambda>g. groupKey g = k) (displayStudies True xs) = None
            \<longleftrightarrow> find (\<lambda>g. groupKey g = k) (displayStudies True ys) = None"
    using grouped_row_of_key [of k xs] grouped_row_of_key [of k ys] e
    by (cases "?rx = []") auto
  have some: "confidence g = confidence h
              \<and> confidence g = Max (confidence ` set ?rx)
              \<and> ((\<forall>s\<in>set ?rx. quantity s \<in> \<nat>) \<and> sum_list (map quantity ?rx) \<le> 2 ^ 53
                 \<longrightarrow> quantity g = quantity h \<and> quantity g = sum_list (map quantity ?rx))"
    if gh: "find (\<lambda>g. groupKey g = k) (displayStudies True xs) = Some g"
        "find (\<lambda>g. groupKey g = k) (displayStudies True ys) = Some h" for g h
  proof -
    have nx: "?rx \<noteq> []"
      using gh(1) grouped_row_of_key [of k xs] by auto
    have ny: "?ry \<noteq> []"
      using nx e by simp
    have fg: "quantity g = foldl js_add (quantity (hd ?rx)) (map quantity (tl ?rx))"
        "confidence g = Max (confidence ` set ?rx)"
      using gh(1) nx grouped_row_of_key [of k xs] by auto
    have fh: "quantity h = foldl js_add (quantity (hd ?ry)) (map quantity (tl ?ry))"
        "confidence h = Max (confidence ` set ?ry)"
      using gh(2) ny grouped_row_of_key [of k ys] by auto
    have c: "confidence g = confidence h"
      using fg(2) fh(2) s by simp
    have "quantity g = quantity h \<and> quantity g = sum_list (map quantity ?rx)"
      if ex: "(\<forall>s\<in>set ?rx. quantity s \<in> \<nat>) \<and> sum_list (map quantity ?rx) \<le> 2 ^ 53"
    proof -
      have gx: "quantity g = sum_list (map quantity ?rx)"
        unfolding fg(1) using nx ex by (intro rows_sum_exact) simp_all
      have "\<forall>s\<in>set ?ry. quantity s \<in> \<nat>"
        using ex unfolding s [symmetric] by blast
      moreover have "sum_list (map quantity ?ry) \<le> 2 ^ 53"
        using ex q by simp
      ultimately have "quantity h = sum_list (map quantity ?ry)"
        unfolding fh(1) using ny by (intro rows_sum_exact) simp_all
      with gx q show ?thesis by simp
    qed
    with c fg(2) show ?thesis by blast
  qed
  from none some show ?thesis by blast
qed

theorem grouping_order_independent_witness:
  "mset [\<lparr>study_id = ''a'', cpt = ''70450'', name = ''CT Head'', rvu = 1, quantity = 1,
            confidence = 1 / 2, originalText = None\<rparr>,
         \<lparr>study_id = ''b'', cpt = ''70450'', name = ''CT Head'', rvu = 1, quantity = 2,
            confidence = 1, originalText = None\<rparr>]
     = mset [\<lparr>study_id = ''b'', cpt = ''70450'', name = ''CT Head'', rvu = 1, quantity = 2,
            confidence = 1, originalText = None\<rparr>,
         \<lparr>study_id = ''a'', cpt = ''70450'', name = ''CT Head'', rvu = 1, quantity = 1,
            confidence = 1 / 2, originalText = None\<rparr>]
   \<and> find (\<lambda>g. groupKey g = ''70450-CT Head'')
       (displayStudies True
         [\<lparr>study_id = ''a'', cpt = ''70450'', name = ''CT Head'', rvu = 1, quantity = 1,
            confidence = 1 / 2, originalText = None\<rparr>,
          \<lparr>study_id = ''b'', cpt = ''70450'', name = ''CT Head'', rvu = 1, quantity = 2,
            confidence = 1, originalText = None\<rparr>])
     = Some \<lparr>study_id = ''a'', cpt = ''70450'', name = ''CT Head'', rvu = 1, quantity = 3,
            confidence = 1, originalText = None\<rparr>
   \<and> find (\<lambda>g. groupKey g = ''70450-CT Head'')
       (displayStudies True
         [\<lparr>study_id = ''b'', cpt = ''70450'', name = ''CT Head'', rvu = 1, quantity = 2,
            confidence = 1, originalText = None\<rparr>,
          \<lparr>study_id = ''a'', cpt = ''70450'', name = ''CT Head'', rvu = 1, quantity = 1,
            confidence = 1 / 2, originalText = None\<rparr>])
     = Some \<lparr>study_id = ''b'', cpt = ''70450'', name = ''CT Head'', rvu = 1, quantity = 3,
            confidence = 1, originalText = None\<rparr>
   \<and> (1::real) \<in> \<nat> \<and> (2::real) \<in> \<nat> \<and> (1::real) + 2 \<le> 2 ^ 53"
  using grouping_order_independent
    [of "[\<lparr>study_id = ''a'', cpt = ''70450'', name = ''CT Head'', rvu = 1, quantity = 1,
            confidence = 1 / 2, originalText = None\<rparr>,
          \<lparr>study_id = ''b'', cpt = ''70450'', name = ''CT Head'', rvu = 1, quantity = 2,
            confidence = 1, originalText = None\<rparr>]"
        "[\<lparr>study_id = ''b'', cpt = ''70450'', name = ''CT Head'', rvu = 1, quantity = 2,
            confidence = 1, originalText = None\<rparr>,
          \<lparr>study_id = ''a'', cpt = ''70450'', name = ''CT Head'', rvu = 1, quantity = 1,
            confidence = 1 / 2, originalText = None\<rparr>]"
        "''70450-CT Head''"]
  by (simp add: displayStudies_def groupStep_def groupKey_def js_add_1_2 js_add_2_1)

section \<open>Aggregate results\<close>



section \<open>Deletion\<close>

lemma foldl_deleteStudy:
  "foldl (\<lambda>prev i. deleteStudy i prev) sts ids = filter (\<lambda>s. study_id s \<notin> set ids) sts"
  by (induction ids arbitrary: sts) (auto simp: deleteStudy_def intro: filter_cong)

text \<open>
  Claim C5. When the identifiers of the study list are distinct, deleting a row in
  grouped mode leaves exactly the rows whose code or name differs from the deleted row's,
  in their order and unchanged: the rows removed are those with the deleted row's
  (code, name) pair.
\<close>

theorem handleDelete_grouped:
  assumes "distinct (map study_id sts)"
  shows "handleDelete True sts study =
           filter (\<lambda>s. \<not> (cpt s = cpt study \<and> name s = name study)) sts"
proof -
  have inj: "inj_on study_id (set sts)"
    using assms by (simp add: distinct_map)
  have "study_id s \<notin> study_id ` {t \<in> set sts. cpt t = cpt study \<and> name t = name study}
          \<longleftrightarrow> \<not> (cpt s = cpt study \<and> name s = name study)"
    if "s \<in> set sts" for s
    using that inj by (auto dest: inj_onD)
  then show ?thesis
    by (auto simp: handleDelete_def foldl_deleteStudy intro!: filter_cong)
qed

theorem handleDelete_grouped_witness:
  "distinct (map study_id
     [\<lparr>study_id = ''a'', cpt = ''70450'', name = ''CT Head'', rvu = 1, quantity = 1,
        confidence = 1, originalText = None\<rparr>,
      \<lparr>study_id = ''b'', cpt = ''71046'', name = ''XR Chest'', rvu = 1, quantity = 1,
        confidence = 1, originalText = None\<rparr>,
      \<lparr>study_id = ''c'', cpt = ''70450'', name = ''CT Head'', rvu = 1, quantity = 2,
        confidence = 1, originalText = Some ''ct head''\<rparr>])
   \<and> handleDelete True
     [\<lparr>study_id = ''a'', cpt = ''70450'', name = ''CT Head'', rvu = 1, quantity = 1,
        confidence = 1, originalText = None\<rparr>,
      \<lparr>study_id = ''b'', cpt = ''71046'', name = ''XR Chest'', rvu = 1, quantity = 1,
        confidence = 1, originalText = None\<rparr>,
      \<lparr>study_id = ''c'', cpt = ''70450'', name = ''CT Head'', rvu = 1, quantity = 2,
        confidence = 1, originalText = Some ''ct head''\<rparr>]
     \<lparr>study_id = ''a'', cpt = ''70450'', name = ''CT Head'', rvu = 1, quantity = 3,
        confidence = 1, originalText = None\<rparr>
   = [\<lparr>study_id = ''b'', cpt = ''71046'', name = ''XR Chest'', rvu = 1, quantity = 1,
        confidence = 1, originalText = None\<rparr>]"
  using handleDelete_grouped
    [of "[\<lparr>study_id = ''a'', cpt = ''70450'', name = ''CT Head'', rvu = 1, quantity = 1,
        confidence = 1, originalText = None\<rparr>,
      \<lparr>study_id = ''b'', cpt = ''71046'', name = ''XR Chest'', rvu = 1, quantity = 1,
        confidence = 1, originalText = None\<rparr>,
      \<lparr>study_id = ''c'', cpt = ''70450'', name = ''CT Head'', rvu = 1, quantity = 2,
        confidence = 1, originalText = Some ''ct head''\<rparr>]"
     "\<lparr>study_id = ''a'', cpt = ''70450'', name = ''CT Head'', rvu = 1, quantity = 3,
        confidence = 1, originalText = None\<rparr>"]
  by simp

section \<open>The extraction call never rejects\<close>

lemma no_key_empty:
  "(VITE_GEMINI_API_KEY env = None \<or> VITE_GEMINI_API_KEY env = Some [])
     \<Longrightarrow> (API_KEY env = None \<or> API_KEY env = Some [])
     \<Longrightarrow> fst (performOCRAndMatch JSON_parse env outcome) = Inr (JArray [])"
  by (auto simp: performOCRAndMatch_def Let_def split: option.splits)

lemma try_failure_empty:
  "tryExtract JSON_parse outcome = Inl e
     \<Longrightarrow> fst (performOCRAndMatch JSON_parse env outcome) = Inr (JArray [])"
  by (simp add: performOCRAndMatch_def Let_def)

lemma never_rejects:
  "\<exists>v. fst (performOCRAndMatch JSON_parse env outcome) = Inr v"
  by (cases "tryExtract JSON_parse outcome") (simp_all add: performOCRAndMatch_def Let_def)

text \<open>
  Claim C7. \<^verbatim>\<open>performOCRAndMatch\<close> resolves to the empty list when neither configuration
  value holds a key, when the awaited call rejects (a transport failure), and when
  \<^verbatim>\<open>JSON.parse\<close> throws on the response text; and whatever the environment, the outcome of
  the call and the parser, its promise resolves to a value and never rejects.
\<close>

theorem performOCRAndMatch_degrades:
  "((VITE_GEMINI_API_KEY env = None \<or> VITE_GEMINI_API_KEY env = Some [])
      \<and> (API_KEY env = None \<or> API_KEY env = Some [])
     \<longrightarrow> fst (performOCRAndMatch JSON_parse env outcome) = Inr (JArray []))
   \<and> (outcome = Rejected \<longrightarrow> fst (performOCRAndMatch JSON_parse env outcome) = Inr (JArray []))
   \<and> (outcome = Response t \<and> JSON_parse (text_or_default t) = Inl e
     \<longrightarrow> fst (performOCRAndMatch JSON_parse env outcome) = Inr (JArray []))
   \<and> (\<exists>v. fst (performOCRAndMatch JSON_parse env outcome) = Inr v)"
proof (intro conjI impI)
  assume "outcome = Rejected"
  then have "tryExtract JSON_parse outcome = Inl NetworkError"
    by (simp add: tryExtract_def)
  then show "fst (performOCRAndMatch JSON_parse env outcome) = Inr (JArray [])"
    by (rule try_failure_empty)
next
  assume "outcome = Response t \<and> JSON_parse (text_or_default t) = Inl e"
  then have "tryExtract JSON_parse outcome = Inl e"
    by (simp add: tryExtract_def)
  then show "fst (performOCRAndMatch JSON_parse env outcome) = Inr (JArray [])"
    by (rule try_failure_empty)
qed (auto intro: no_key_empty never_rejects)

theorem performOCRAndMatch_degrades_witness:
  "fst (performOCRAndMatch (\<lambda>s. Inr (JObject [(''studies'', JArray [JNull])]))
          \<lparr>VITE_GEMINI_API_KEY = None, API_KEY = Some []\<rparr> (Response (Some ''{}'')))
     = Inr (JArray [])
   \<and> fst (performOCRAndMatch (\<lambda>s. Inr (JObject [(''studies'', JArray [JNull])]))
          \<lparr>VITE_GEMINI_API_KEY = Some ''key'', API_KEY = None\<rparr> Rejected)
     = Inr (JArray [])
   \<and> fst (performOCRAndMatch (\<lambda>s. if s = ''{}'' then Inr (JObject []) else Inl SyntaxError)
          \<lparr>VITE_GEMINI_API_KEY = Some ''key'', API_KEY = None\<rparr> (Response (Some ''<html>'')))
     = Inr (JArray [])"
  using
    performOCRAndMatch_degrades
      [where env = "\<lparr>VITE_GEMINI_API_KEY = None, API_KEY = Some []\<rparr>"
         and JSON_parse = "\<lambda>s. Inr (JObject [(''studies'', JArray [JNull])])"
         and outcome = "Response (Some ''{}'')"]
    performOCRAndMatch_degrades
      [where env = "\<lparr>VITE_GEMINI_API_KEY = Some ''key'', API_KEY = None\<rparr>"
         and JSON_parse = "\<lambda>s. Inr (JObject [(''studies'', JArray [JNull])])"
         and outcome = Rejected]
    performOCRAndMatch_degrades
      [where env = "\<lparr>VITE_GEMINI_API_KEY = Some ''key'', API_KEY = None\<rparr>"
         and JSON_parse = "\<lambda>s. if s = ''{}'' then Inr (JObject []) else Inl SyntaxError"
         and outcome = "Response (Some ''<html>'')" and t = "Some ''<html>''"
         and e = SyntaxError]
  by (simp add: text_or_default_def)

end
